theory Spec2Isabelle
  imports Main "HOL-Library.Word"
begin

unbundle bit_operations_syntax

section \<open>Values, errors and the struct codec\<close>

text \<open>
  A shallow embedding of \<^verbatim>\<open>adafruit_rgb_display/rgb.py\<close>.  Python integers are
  unbounded, so they are \<open>int\<close>; on \<open>int\<close> the operations \<open>AND\<close>, \<open>OR\<close>,
  \<open>push_bit\<close> and \<open>drop_bit\<close> are Python's \<^verbatim>\<open>&\<close>, \<^verbatim>\<open>|\<close>, \<^verbatim>\<open><<\<close> and
  \<^verbatim>\<open>>>\<close> (infinite two's complement, the right shift rounding towards minus
  infinity).  A byte of a \<^verbatim>\<open>bytes\<close> or \<^verbatim>\<open>bytearray\<close> object is an \<open>8 word\<close>.
\<close>

type_synonym byte = "8 word"

text \<open>
  Every \<^verbatim>\<open>raise\<close> of the module and every exception of the built-ins it calls is
  a value.  The module raises \<^verbatim>\<open>ValueError\<close> at three places in \<^verbatim>\<open>image\<close>; Python
  raises the same class when a sequence unpacks into the wrong number of names, when a
  \<^verbatim>\<open>bytearray\<close> item is not in \<^verbatim>\<open>range(256)\<close> and when a \<^verbatim>\<open>bytearray\<close> is given a
  negative size.  \<open>value_error\<close> tells these messages apart.
\<close>

datatype value_error =
    ModeError             \<comment> \<open>\<^verbatim>\<open>'Image must be in mode RGB or RGBA'\<close>\<close>
  | RotationError         \<comment> \<open>\<^verbatim>\<open>'Rotation must be 0/90/180/270'\<close>\<close>
  | SizeError int int     \<comment> \<open>\<^verbatim>\<open>'Image must be same dimensions as display ({0}x{1}).'\<close>\<close>
  | UnpackError           \<comment> \<open>too many or not enough values to unpack\<close>
  | ByteRangeError        \<comment> \<open>\<^verbatim>\<open>byte must be in range(0, 256)\<close>\<close>
  | NegativeCountError    \<comment> \<open>\<^verbatim>\<open>negative count\<close>\<close>

datatype error =
    ValueError value_error
  | TypeError
  | StructError
  | ZeroDivisionError
  | IndexError

text \<open>
  The values that reach \<^verbatim>\<open>color565\<close> as its first argument and that \<^verbatim>\<open>pixel\<close>
  returns: \<^verbatim>\<open>None\<close>, an integer, or a tuple or list of integers.
\<close>

datatype py_value = PyNone | PyInt int | PySeq "int list"

text \<open>
  \<^verbatim>\<open>def color565(r, g=0, b=0)\<close>.  The \<^verbatim>\<open>try\<close> unpacks a sequence of exactly three
  items; an integer (or \<^verbatim>\<open>None\<close>) is not iterable, the \<^verbatim>\<open>TypeError\<close> is caught and
  the three arguments are used as they are; a sequence of any other length raises
  \<^verbatim>\<open>ValueError\<close>, which the \<^verbatim>\<open>except TypeError\<close> clause does not catch.  With
  \<^verbatim>\<open>None\<close> left in \<^verbatim>\<open>r\<close>, \<^verbatim>\<open>r & 0xf8\<close> raises \<^verbatim>\<open>TypeError\<close>.
\<close>

fun color565 :: "py_value \<Rightarrow> int \<Rightarrow> int \<Rightarrow> error + int" where
  "color565 (PySeq [r, g, b]) g0 b0 =
     Inr (((push_bit 8 (r AND 0xf8)) OR (push_bit 3 (g AND 0xfc))) OR (drop_bit 3 b))"
| "color565 (PySeq vs) g0 b0 = Inl (ValueError UnpackError)"
| "color565 (PyInt r) g b =
     Inr (((push_bit 8 (r AND 0xf8)) OR (push_bit 3 (g AND 0xfc))) OR (drop_bit 3 b))"
| "color565 PyNone g b = Inl TypeError"

text \<open>
  The part of \<^verbatim>\<open>struct\<close> the module uses: big-endian formats made of the codes
  \<^verbatim>\<open>B\<close> (one unsigned byte) and \<^verbatim>\<open>H\<close> (one unsigned 16-bit value).  \<^verbatim>\<open>">HH"\<close> is
  \<open>[FmtH, FmtH]\<close>.  CPython's \<^verbatim>\<open>struct.pack\<close> raises \<^verbatim>\<open>struct.error\<close> when the number
  of values differs from the number of codes and when a value is outside the range of
  its code; \<^verbatim>\<open>struct.unpack\<close> raises it when the buffer has not exactly
  \<^verbatim>\<open>calcsize\<close> bytes.
\<close>

datatype fmt_code = FmtB | FmtH

fun code_size :: "fmt_code \<Rightarrow> int" where
  "code_size FmtB = 1"
| "code_size FmtH = 2"

definition calcsize :: "fmt_code list \<Rightarrow> int" where
  "calcsize fmt = sum_list (map code_size fmt)"

fun pack_code :: "fmt_code \<Rightarrow> int \<Rightarrow> error + byte list" where
  "pack_code FmtB v =
     (if 0 \<le> v \<and> v \<le> 255 then Inr [word_of_int v] else Inl StructError)"
| "pack_code FmtH v =
     (if 0 \<le> v \<and> v \<le> 65535 then Inr [word_of_int (v div 256), word_of_int (v mod 256)]
      else Inl StructError)"

fun struct_pack :: "fmt_code list \<Rightarrow> int list \<Rightarrow> error + byte list" where
  "struct_pack [] [] = Inr []"
| "struct_pack (c # cs) (v # vs) =
     (case pack_code c v of
        Inl e \<Rightarrow> Inl e
      | Inr bs \<Rightarrow> (case struct_pack cs vs of Inl e \<Rightarrow> Inl e | Inr rest \<Rightarrow> Inr (bs @ rest)))"
| "struct_pack cs vs = Inl StructError"

fun unpack_codes :: "fmt_code list \<Rightarrow> byte list \<Rightarrow> int list" where
  "unpack_codes (FmtB # cs) (b # bs) = uint b # unpack_codes cs bs"
| "unpack_codes (FmtH # cs) (hi # lo # bs) = (uint hi * 256 + uint lo) # unpack_codes cs bs"
| "unpack_codes cs bs = []"

definition struct_unpack :: "fmt_code list \<Rightarrow> byte list \<Rightarrow> error + int list" where
  "struct_unpack fmt data =
     (if int (length data) = calcsize fmt then Inr (unpack_codes fmt data) else Inl StructError)"

text \<open>\<^verbatim>\<open>pixel * n\<close> on a bytes object: \<open>n\<close> copies, none when \<open>n\<close> is not positive.\<close>

definition bytes_mul :: "byte list \<Rightarrow> int \<Rightarrow> byte list" where
  "bytes_mul bs n = concat (replicate (nat n) bs)"

text \<open>\<^verbatim>\<open>divmod\<close> on integers: floor division, \<^verbatim>\<open>ZeroDivisionError\<close> on a zero divisor.\<close>

definition py_divmod :: "int \<Rightarrow> int \<Rightarrow> error + (int \<times> int)" where
  "py_divmod a b = (if b = 0 then Inl ZeroDivisionError else Inr (a div b, a mod b))"

definition py_range :: "int \<Rightarrow> int list" where
  "py_range n = map int [0..<nat n]"

text \<open>\<^verbatim>\<open>bytearray(n)\<close>: \<open>n\<close> zero bytes.\<close>

definition bytearray :: "int \<Rightarrow> error + byte list" where
  "bytearray n = (if n < 0 then Inl (ValueError NegativeCountError) else Inr (replicate (nat n) 0))"

text \<open>
  \<^verbatim>\<open>buf[i] = v\<close> on a bytearray: a negative index counts from the end, the index is
  checked first, then the value.
\<close>

definition bytearray_set :: "byte list \<Rightarrow> int \<Rightarrow> int \<Rightarrow> error + byte list" where
  "bytearray_set buf i v =
     (let n = int (length buf); j = (if i < 0 then n + i else i)
      in if \<not> (0 \<le> j \<and> j < n) then Inl IndexError
         else if \<not> (0 \<le> v \<and> v < 256) then Inl (ValueError ByteRangeError)
         else Inr (buf[nat j := word_of_int v]))"

text \<open>A \<^verbatim>\<open>for\<close> loop over a list whose body may raise: the first error ends the loop.\<close>

fun for_loop :: "'a list \<Rightarrow> ('a \<Rightarrow> 's \<Rightarrow> error + 's) \<Rightarrow> 's \<Rightarrow> error + 's" where
  "for_loop [] body s = Inr s"
| "for_loop (x # xs) body s =
     (case body x s of Inl e \<Rightarrow> Inl e | Inr s' \<Rightarrow> for_loop xs body s')"

section \<open>The bus transport\<close>

text \<open>
  \<^verbatim>\<open>Display\<close> talks to the panel only through \<^verbatim>\<open>self.write(command, data)\<close> and
  \<^verbatim>\<open>self.read(command, count)\<close>.  The state of the bus is the sequence of these calls
  so far, and the panel at the other end: \<open>device history i\<close> is byte \<open>i\<close> of what the
  panel answers to a read issued after \<open>history\<close>.  An exception leaves the calls
  already made on the bus, so every operation returns the bus together with its result.
\<close>

datatype bus_op =
    Write "byte option" "byte list option"
  | Read "byte option" int

record bus =
  calls :: "bus_op list"
  device :: "bus_op list \<Rightarrow> nat \<Rightarrow> byte"

type_synonym 'a io = "bus \<Rightarrow> (error + 'a) \<times> bus"

definition io_return :: "'a \<Rightarrow> 'a io" where
  "io_return v = (\<lambda>s. (Inr v, s))"

definition io_raise :: "error \<Rightarrow> 'a io" where
  "io_raise e = (\<lambda>s. (Inl e, s))"

definition io_lift :: "error + 'a \<Rightarrow> 'a io" where
  "io_lift r = (\<lambda>s. (r, s))"

definition io_bind :: "'a io \<Rightarrow> ('a \<Rightarrow> 'b io) \<Rightarrow> 'b io" where
  "io_bind m f = (\<lambda>s. case m s of (Inl e, s') \<Rightarrow> (Inl e, s') | (Inr v, s') \<Rightarrow> f v s')"

text \<open>
  \<^verbatim>\<open>DisplaySPI.write\<close> and \<^verbatim>\<open>DisplaySPI.read\<close> (\<open>write\<close> is a keyword of
  the theory language, hence the prefix).  \<^verbatim>\<open>read\<close> allocates
  \<^verbatim>\<open>bytearray(count)\<close> before it touches the bus and fills it from the panel.
\<close>

definition bus_write :: "byte option \<Rightarrow> byte list option \<Rightarrow> unit io" where
  "bus_write command data = (\<lambda>s. (Inr (), s\<lparr>calls := calls s @ [Write command data]\<rparr>))"

definition bus_read :: "byte option \<Rightarrow> int \<Rightarrow> (byte list) io" where
  "bus_read command count =
     (\<lambda>s. if count < 0 then (Inl (ValueError NegativeCountError), s)
          else (Inr (map (device s (calls s)) [0..<nat count]),
                s\<lparr>calls := calls s @ [Read command count]\<rparr>))"

text \<open>
  What one transport call puts on the SPI link: each transfer with the level of the
  data/command pin (\<open>False\<close> is command mode) during it.
\<close>

datatype spi_transfer = SpiWrite bool "byte list" | SpiReadinto bool nat

fun spi_transfers :: "bus_op \<Rightarrow> spi_transfer list" where
  "spi_transfers (Write command data) =
     (case command of None \<Rightarrow> [] | Some c \<Rightarrow> [SpiWrite False [c]]) @
     (case data of None \<Rightarrow> [] | Some bs \<Rightarrow> [SpiWrite True bs])"
| "spi_transfers (Read command count) =
     (case command of None \<Rightarrow> [] | Some c \<Rightarrow> [SpiWrite False [c]]) @
     (if count \<noteq> 0 then [SpiReadinto False (nat count)] else [])"

definition spi_wire :: "bus \<Rightarrow> spi_transfer list" where
  "spi_wire s = concat (map spi_transfers (calls s))"

section \<open>The display\<close>

text \<open>
  The attributes of a \<^verbatim>\<open>Display\<close> object.  The opcodes are \<^verbatim>\<open>None\<close> in the base
  class and a byte in a controller's subclass (\<^verbatim>\<open>DisplaySPI.write\<close> sends
  \<^verbatim>\<open>bytearray([command])\<close>).  \<^verbatim>\<open>_BUFFER_SIZE\<close> is a constant of the
  module fixed at import time (\<^verbatim>\<open>320 * 240\<close>, \<^verbatim>\<open>256\<close>, or half of the FT232H payload
  limit); it is carried here as a parameter.
\<close>

record display =
  width :: int
  height :: int
  PAGE_SET :: "byte option"
  COLUMN_SET :: "byte option"
  RAM_WRITE :: "byte option"
  RAM_READ :: "byte option"
  X_START :: int
  Y_START :: int
  ENCODE_PIXEL :: "fmt_code list"
  ENCODE_POS :: "fmt_code list"
  DECODE_PIXEL :: "fmt_code list"
  BUFFER_SIZE :: int

text \<open>
  \<^verbatim>\<open>Display(width, height)\<close> with the attributes of the base class, and
  \<^verbatim>\<open>DisplaySPI(..., width, height, x_offset, y_offset)\<close>, which sets the two offsets.
  The table \<^verbatim>\<open>_INIT\<close> of the base class is empty, so \<^verbatim>\<open>init\<close> writes nothing.
\<close>

definition Display :: "int \<Rightarrow> int \<Rightarrow> int \<Rightarrow> display" where
  "Display buffer_size w h =
     \<lparr>width = w, height = h, PAGE_SET = None, COLUMN_SET = None, RAM_WRITE = None,
      RAM_READ = None, X_START = 0, Y_START = 0, ENCODE_PIXEL = [FmtH],
      ENCODE_POS = [FmtH, FmtH], DECODE_PIXEL = [FmtB, FmtB, FmtB],
      BUFFER_SIZE = buffer_size\<rparr>"

definition DisplaySPI :: "int \<Rightarrow> int \<Rightarrow> int \<Rightarrow> int \<Rightarrow> int \<Rightarrow> display" where
  "DisplaySPI buffer_size w h x_offset y_offset =
     (Display buffer_size w h)\<lparr>X_START := x_offset, Y_START := y_offset\<rparr>"

definition encode_pos :: "display \<Rightarrow> int \<Rightarrow> int \<Rightarrow> error + byte list" where
  "encode_pos d x y = struct_pack (ENCODE_POS d) [x, y]"

definition encode_pixel :: "display \<Rightarrow> int \<Rightarrow> error + byte list" where
  "encode_pixel d color = struct_pack (ENCODE_PIXEL d) [color]"

text \<open>\<^verbatim>\<open>color565(*values)\<close>: one to three positional arguments, else \<^verbatim>\<open>TypeError\<close>.\<close>

fun color565_star :: "int list \<Rightarrow> error + int" where
  "color565_star [r] = color565 (PyInt r) 0 0"
| "color565_star [r, g] = color565 (PyInt r) g 0"
| "color565_star [r, g, b] = color565 (PyInt r) g b"
| "color565_star vs = Inl TypeError"

definition decode_pixel :: "display \<Rightarrow> byte list option \<Rightarrow> error + int" where
  "decode_pixel d data =
     (case data of
        None \<Rightarrow> Inl TypeError
      | Some bs \<Rightarrow>
          (case struct_unpack (DECODE_PIXEL d) bs of
             Inl e \<Rightarrow> Inl e
           | Inr values \<Rightarrow> color565_star values))"

text \<open>
  \<^verbatim>\<open>_block\<close>.  Python evaluates \<^verbatim>\<open>self._encode_pos(...)\<close> before the call of
  \<^verbatim>\<open>self.write\<close> that takes it, so a position that does not encode raises before
  that write.
\<close>

definition block ::
  "display \<Rightarrow> int \<Rightarrow> int \<Rightarrow> int \<Rightarrow> int \<Rightarrow> byte list option \<Rightarrow> (byte list option) io" where
  "block d x0 y0 x1 y1 data =
     io_bind (io_lift (encode_pos d (x0 + X_START d) (x1 + X_START d))) (\<lambda>cols.
     io_bind (bus_write (COLUMN_SET d) (Some cols)) (\<lambda>_.
     io_bind (io_lift (encode_pos d (y0 + Y_START d) (y1 + Y_START d))) (\<lambda>pages.
     io_bind (bus_write (PAGE_SET d) (Some pages)) (\<lambda>_.
       (case data of
          None \<Rightarrow>
            (let size = calcsize (DECODE_PIXEL d)
             in io_bind (bus_read (RAM_READ d) ((x1 - x0 + 1) * (y1 - y0 + 1) * size))
                  (\<lambda>bs. io_return (Some bs)))
        | Some bs \<Rightarrow> io_bind (bus_write (RAM_WRITE d) (Some bs)) (\<lambda>_. io_return None))))))"

text \<open>\<^verbatim>\<open>pixel(x, y, color=None)\<close>: a read when \<open>color\<close> is \<open>None\<close>, else a write.\<close>

definition pixel :: "display \<Rightarrow> int \<Rightarrow> int \<Rightarrow> int option \<Rightarrow> py_value io" where
  "pixel d x y color =
     (case color of
        None \<Rightarrow>
          io_bind (block d x y x y None) (\<lambda>data.
          io_bind (io_lift (decode_pixel d data)) (\<lambda>c. io_return (PyInt c)))
      | Some c \<Rightarrow>
          if 0 \<le> x \<and> x < width d \<and> 0 \<le> y \<and> y < height d
          then io_bind (io_lift (encode_pixel d c)) (\<lambda>px.
               io_bind (block d x y x y (Some px)) (\<lambda>_. io_return PyNone))
          else io_return PyNone)"

text \<open>\<^verbatim>\<open>for _ in range(chunks): self.write(None, data)\<close>\<close>

fun write_chunks :: "nat \<Rightarrow> byte list \<Rightarrow> unit io" where
  "write_chunks 0 data = io_return ()"
| "write_chunks (Suc n) data = io_bind (bus_write None (Some data)) (\<lambda>_. write_chunks n data)"

text \<open>
  The first four statements of \<^verbatim>\<open>fill_rectangle\<close>: the clamped origin, then the
  clamped width and height, each computed from the values clamped before it.
\<close>

definition clamp_rect :: "display \<Rightarrow> int \<Rightarrow> int \<Rightarrow> int \<Rightarrow> int \<Rightarrow> int \<times> int \<times> int \<times> int" where
  "clamp_rect d x y w h =
     (let x = min (width d - 1) (max 0 x);
          y = min (height d - 1) (max 0 y);
          w = min (width d - x) (max 1 w);
          h = min (height d - y) (max 1 h)
      in (x, y, w, h))"

definition fill_rectangle ::
  "display \<Rightarrow> int \<Rightarrow> int \<Rightarrow> int \<Rightarrow> int \<Rightarrow> int \<Rightarrow> unit io" where
  "fill_rectangle d x y w h color =
     (case clamp_rect d x y w h of
        (x, y, w, h) \<Rightarrow>
          io_bind (block d x y (x + w - 1) (y + h - 1) (Some [])) (\<lambda>_.
          io_bind (io_lift (py_divmod (w * h) (BUFFER_SIZE d))) (\<lambda>(chunks, rest).
          io_bind (io_lift (encode_pixel d color)) (\<lambda>pixel.
          io_bind (if chunks \<noteq> 0
                   then (let data = bytes_mul pixel (BUFFER_SIZE d)
                         in write_chunks (nat chunks) data)
                   else io_return ()) (\<lambda>_.
          bus_write None (Some (bytes_mul pixel rest)))))))"

definition fill :: "display \<Rightarrow> int \<Rightarrow> unit io" where
  "fill d color = fill_rectangle d 0 0 (width d) (height d) color"

definition hline :: "display \<Rightarrow> int \<Rightarrow> int \<Rightarrow> int \<Rightarrow> int \<Rightarrow> unit io" where
  "hline d x y w color = fill_rectangle d x y w 1 color"

definition vline :: "display \<Rightarrow> int \<Rightarrow> int \<Rightarrow> int \<Rightarrow> int \<Rightarrow> unit io" where
  "vline d x y h color = fill_rectangle d x y 1 h color"

section \<open>Images\<close>

text \<open>
  What \<^verbatim>\<open>image\<close> uses of a Python Imaging Library image: its mode, its size and
  \<^verbatim>\<open>getpixel\<close>, which returns the tuple of the bands of a pixel (three for
  \<^verbatim>\<open>RGB\<close>, four for \<^verbatim>\<open>RGBA\<close>) and raises \<^verbatim>\<open>IndexError\<close> outside the image.
  \<^verbatim>\<open>rotate(angle, expand=True)\<close> turns the image counter-clockwise; for 90, 180 and
  270 degrees it is an exact transposition, and 90 and 270 swap width and height.
  \<^verbatim>\<open>image\<close> calls it with no other angle.
\<close>

record pil_image =
  mode :: string
  im_size :: "int \<times> int"
  bands :: "int \<times> int \<Rightarrow> int list"

definition getpixel :: "pil_image \<Rightarrow> int \<times> int \<Rightarrow> error + py_value" where
  "getpixel img xy =
     (case (xy, im_size img) of
        ((x, y), (w, h)) \<Rightarrow>
          if 0 \<le> x \<and> x < w \<and> 0 \<le> y \<and> y < h then Inr (PySeq (bands img xy)) else Inl IndexError)"

definition rotate_image :: "pil_image \<Rightarrow> int \<Rightarrow> pil_image" where
  "rotate_image img angle =
     (case im_size img of
        (w, h) \<Rightarrow>
          if angle = 90 then
            img\<lparr>im_size := (h, w), bands := (\<lambda>(x, y). bands img (w - 1 - y, x))\<rparr>
          else if angle = 180 then
            img\<lparr>bands := (\<lambda>(x, y). bands img (w - 1 - x, h - 1 - y))\<rparr>
          else if angle = 270 then
            img\<lparr>im_size := (h, w), bands := (\<lambda>(x, y). bands img (y, h - 1 - x))\<rparr>
          else img)"

text \<open>
  The body of the double loop of \<^verbatim>\<open>image\<close>: convert the pixel at \<open>(x, y)\<close> and store
  its two bytes.
\<close>

definition put_pixel :: "display \<Rightarrow> pil_image \<Rightarrow> int \<Rightarrow> int \<Rightarrow> byte list \<Rightarrow> error + byte list" where
  "put_pixel d img x y pixels =
     (case getpixel img (x, y) of
        Inl e \<Rightarrow> Inl e
      | Inr p \<Rightarrow>
          (case color565 p 0 0 of
             Inl e \<Rightarrow> Inl e
           | Inr pix \<Rightarrow>
               (case bytearray_set pixels (2 * (y * width d + x)) (drop_bit 8 pix) of
                  Inl e \<Rightarrow> Inl e
                | Inr pixels' \<Rightarrow>
                    bytearray_set pixels' (2 * (y * width d + x) + 1) (pix AND 0xFF))))"

definition image :: "display \<Rightarrow> pil_image \<Rightarrow> int \<Rightarrow> unit io" where
  "image d img rotation =
     (if mode img \<notin> {''RGB'', ''RGBA''} then io_raise (ValueError ModeError)
      else if rotation \<notin> {0, 90, 180, 270} then io_raise (ValueError RotationError)
      else
        (let img = (if rotation \<noteq> 0 then rotate_image img rotation else img);
             (imwidth, imheight) = im_size img
         in if imwidth \<noteq> width d \<or> imheight \<noteq> height d
            then io_raise (ValueError (SizeError (width d) (height d)))
            else
              io_bind (io_lift (bytearray (width d * height d * 2))) (\<lambda>pixels.
              io_bind (io_lift
                (for_loop (py_range (width d))
                   (\<lambda>x. for_loop (py_range (height d)) (\<lambda>y. put_pixel d img x y)) pixels))
                (\<lambda>pixels.
              io_bind (block d 0 0 (width d - 1) (height d - 1) (Some pixels))
                (\<lambda>_. io_return ())))))"

text \<open>
  The three errors that \<^verbatim>\<open>image\<close> raises itself, the validation errors, as opposed to
  the errors of the built-ins it calls.
\<close>

fun validation_error :: "error \<Rightarrow> bool" where
  "validation_error (ValueError ModeError) = True"
| "validation_error (ValueError RotationError) = True"
| "validation_error (ValueError (SizeError w h)) = True"
| "validation_error e = False"

text \<open>
  The pixel at \<open>(x, y)\<close> of the image is in the buffer: its 565 value, big-endian, at
  the byte offset \<open>2 * (y * width + x)\<close>.
\<close>

definition stored_at :: "display \<Rightarrow> pil_image \<Rightarrow> byte list \<Rightarrow> int \<Rightarrow> int \<Rightarrow> bool" where
  "stored_at d img buf x y =
     (case color565 (PySeq (bands img (x, y))) 0 0 of
        Inl e \<Rightarrow> False
      | Inr pix \<Rightarrow>
          buf ! nat (2 * (y * width d + x)) = word_of_int (drop_bit 8 pix) \<and>
          buf ! nat (2 * (y * width d + x) + 1) = word_of_int (pix AND 0xFF))"

section \<open>The unchunked fill and the bytes on the link\<close>

text \<open>
  The specification's reference for the chunked fill: the same window, then the whole
  repeated pixel pattern in one write.  This definition follows the specification, not
  the source; it is what \<open>fill_rectangle\<close> is compared with.
\<close>

definition fill_rectangle_unchunked ::
  "display \<Rightarrow> int \<Rightarrow> int \<Rightarrow> int \<Rightarrow> int \<Rightarrow> int \<Rightarrow> unit io" where
  "fill_rectangle_unchunked d x y w h color =
     (case clamp_rect d x y w h of
        (x, y, w, h) \<Rightarrow>
          io_bind (block d x y (x + w - 1) (y + h - 1) (Some [])) (\<lambda>_.
          io_bind (io_lift (encode_pixel d color)) (\<lambda>pixel.
          bus_write None (Some (bytes_mul pixel (w * h))))))"

text \<open>
  The bytes a sequence of transport calls sends to the panel, each with the level of the
  data/command pin: how the calls are cut into transfers does not show here.
\<close>

fun sent :: "spi_transfer \<Rightarrow> (bool \<times> byte) list" where
  "sent (SpiWrite dc bs) = map (Pair dc) bs"
| "sent (SpiReadinto dc n) = []"

definition wire_bytes :: "bus_op list \<Rightarrow> (bool \<times> byte) list" where
  "wire_bytes ops = concat (map sent (concat (map spi_transfers ops)))"

section \<open>A concrete panel\<close>

text \<open>
  A 2 by 2 panel and a 320 by 240 panel with the opcodes of a typical controller, no
  offset and the transfer buffer of 256 pixels that the module takes on a
  microcontroller, and a bus on which nothing has been sent yet, whose panel answers
  every read with the bytes 248, 0, 0 (a red pixel).
\<close>

definition panel2 :: display where
  "panel2 = (DisplaySPI 256 2 2 0 0)\<lparr>COLUMN_SET := Some 0x2A, PAGE_SET := Some 0x2B,
     RAM_WRITE := Some 0x2C, RAM_READ := Some 0x2E\<rparr>"

definition panel320 :: display where
  "panel320 = (DisplaySPI 256 320 240 0 0)\<lparr>COLUMN_SET := Some 0x2A, PAGE_SET := Some 0x2B,
     RAM_WRITE := Some 0x2C, RAM_READ := Some 0x2E\<rparr>"

definition red_bus :: bus where
  "red_bus = \<lparr>calls = [], device = (\<lambda>history i. if i = 0 then 248 else 0)\<rparr>"

text \<open>
  Two images of the size of the small panel: one in mode \<^verbatim>\<open>RGB\<close> with a red, a green, a
  blue and a white pixel, one in mode \<^verbatim>\<open>RGBA\<close> that is opaque red all over.
\<close>

definition rgb_image :: pil_image where
  "rgb_image = \<lparr>mode = ''RGB'', im_size = (2, 2),
     bands = (\<lambda>xy. if xy = (0, 0) then [255, 0, 0] else if xy = (1, 0) then [0, 255, 0]
                    else if xy = (0, 1) then [0, 0, 255] else [255, 255, 255])\<rparr>"

definition rgba_image :: pil_image where
  "rgba_image = \<lparr>mode = ''RGBA'', im_size = (2, 2), bands = (\<lambda>xy. [255, 0, 0, 255])\<rparr>"

section \<open>The 565 packing\<close>

text \<open>
  C4.  For all integers \<open>r\<close>, \<open>g\<close>, \<open>b\<close>, \<open>color565\<close> returns
  \<^verbatim>\<open>(r & 0xF8) << 8 | (g & 0xFC) << 3 | (b >> 3)\<close>, and a call with the sequence
  \<open>[r, g, b]\<close> as the first argument (whatever the other two arguments are) returns
  the same value as the call with the three channels as separate arguments.
\<close>

theorem color565_formula_and_overload:
  "color565 (PyInt r) g b =
     Inr (((push_bit 8 (r AND 0xF8)) OR (push_bit 3 (g AND 0xFC))) OR (drop_bit 3 b)) \<and>
   color565 (PySeq [r, g, b]) g' b' = color565 (PyInt r) g b"
  by simp

text \<open>
  The red and green contributions are masked before they are shifted, so together they
  occupy bits 5 to 15; the blue channel is only shifted.
\<close>

lemma red_green_bits:
  "0 \<le> (push_bit 8 (r AND 0xf8)) OR (push_bit 3 (g AND (0xfc::int)))"
  "(push_bit 8 (r AND 0xf8)) OR (push_bit 3 (g AND (0xfc::int))) < 2 ^ 16"
proof -
  let ?A = "push_bit 8 (r AND (0xf8::int))" and ?B = "push_bit 3 (g AND (0xfc::int))"
  have r1: "r AND 0xf8 \<le> 0xf8" by (rule AND_upper2) simp
  have g1: "g AND 0xfc \<le> 0xfc" by (rule AND_upper2) simp
  have A: "0 \<le> ?A" "?A < 2 ^ 16" using r1 by (simp_all add: push_bit_eq_mult)
  have B: "0 \<le> ?B" "?B < 2 ^ 16" using g1 by (simp_all add: push_bit_eq_mult)
  show "0 \<le> ?A OR ?B" using A B by simp
  show "?A OR ?B < 2 ^ 16" using A B by (intro OR_upper) simp_all
qed

lemma or_blue_fits:
  assumes c: "0 \<le> (c::int)" "c < 2 ^ 16"
  shows "(0 \<le> c OR drop_bit 3 b \<and> c OR drop_bit 3 b < 2 ^ 16) = (0 \<le> b \<and> b < 2 ^ 19)"
proof (cases "0 \<le> b")
  case False
  then show ?thesis by simp
next
  case True
  have d0: "0 \<le> drop_bit 3 b" using True by simp
  have le: "drop_bit 3 b \<le> c OR drop_bit 3 b"
    using or_greater_eq [of c "drop_bit 3 b"] c(1) by (simp add: or.commute)
  have "(drop_bit 3 b < 2 ^ 16) = (b < 2 ^ 19)"
    unfolding drop_bit_eq_div by (simp, arith)
  moreover have "(c OR drop_bit 3 b < 2 ^ 16) = (drop_bit 3 b < 2 ^ 16)"
    using OR_upper [of c 16 "drop_bit 3 b"] c le by auto
  ultimately show ?thesis using True c d0 by simp
qed

text \<open>
  C9, as amended.  For all integers \<open>r\<close>, \<open>g\<close>, \<open>b\<close>, \<open>color565\<close> returns a value
  and raises nothing; red and green are masked whatever their size, blue is not, and the
  result is an unsigned 16-bit value exactly when \<open>0 \<le> b < 2 ^ 19\<close> (so for every
  \<open>b\<close> from 0 to 255).
\<close>

theorem color565_fits_iff_blue_in_range:
  "\<exists>v. color565 (PyInt r) g b = Inr v \<and>
     ((0 \<le> v \<and> v < 2 ^ 16) = (0 \<le> b \<and> b < 2 ^ 19))"
  using or_blue_fits [OF red_green_bits, of r g b] by simp

theorem color565_fits_iff_blue_in_range_witness:
  "color565 (PyInt 1000) (- 7) 255 = Inr 61407 \<and> (0 \<le> (61407::int) \<and> (61407::int) < 2 ^ 16) \<and>
   (0 \<le> (255::int) \<and> (255::int) < 2 ^ 19)"
  using color565_fits_iff_blue_in_range [of 1000 "- 7" 255] by simp

text \<open>
  C9 as stated fails: a blue value of \<open>2 ^ 19\<close> gives \<open>65536\<close>, which needs 17 bits,
  and a negative blue value gives a negative result.
\<close>

theorem color565_blue_unmasked_counterexample:
  "color565 (PyInt 0) 0 524288 = Inr 65536 \<and> \<not> (65536 :: int) < 2 ^ 16 \<and>
   color565 (PyInt 0) 0 (- 1) = Inr (- 1)"
  by simp

section \<open>The transport calls of a block transfer\<close>

lemma io_simps:
  "io_bind (io_return v) f s = f v s"
  "io_bind (io_raise e) f s = (Inl e, s)"
  "io_bind (io_lift (Inr v)) f s = f v s"
  "io_bind (io_lift (Inl e)) f s = (Inl e, s)"
  by (simp_all add: io_bind_def io_return_def io_raise_def io_lift_def)

lemma io_bind_write:
  "io_bind (bus_write c data) f s = f () (s\<lparr>calls := calls s @ [Write c data]\<rparr>)"
  by (simp add: io_bind_def bus_write_def)

lemma calcsize_nonneg: "0 \<le> calcsize fmt"
  unfolding calcsize_def
proof (induction fmt)
  case Nil show ?case by simp
next
  case (Cons c cs) then show ?case by (cases c) simp_all
qed

lemma io_bind_read:
  "0 \<le> n \<Longrightarrow> io_bind (bus_read c n) f s =
     f (map (device s (calls s)) [0..<nat n]) (s\<lparr>calls := calls s @ [Read c n]\<rparr>)"
  by (simp add: io_bind_def bus_read_def)

lemma block_write:
  assumes "encode_pos d (x0 + X_START d) (x1 + X_START d) = Inr cx"
    and "encode_pos d (y0 + Y_START d) (y1 + Y_START d) = Inr cy"
  shows "block d x0 y0 x1 y1 (Some bs) s =
    (Inr None, s\<lparr>calls := calls s @ [Write (COLUMN_SET d) (Some cx), Write (PAGE_SET d) (Some cy),
        Write (RAM_WRITE d) (Some bs)]\<rparr>)"
  using assms by (simp add: block_def io_simps io_bind_write io_return_def)

lemma block_read:
  assumes "encode_pos d (x0 + X_START d) (x1 + X_START d) = Inr cx"
    and "encode_pos d (y0 + Y_START d) (y1 + Y_START d) = Inr cy"
    and "0 \<le> (x1 - x0 + 1) * (y1 - y0 + 1) * calcsize (DECODE_PIXEL d)"
  shows "block d x0 y0 x1 y1 None s =
    (Inr (Some (map (device s (calls s @ [Write (COLUMN_SET d) (Some cx), Write (PAGE_SET d) (Some cy)]))
                  [0..<nat ((x1 - x0 + 1) * (y1 - y0 + 1) * calcsize (DECODE_PIXEL d))])),
     s\<lparr>calls := calls s @ [Write (COLUMN_SET d) (Some cx), Write (PAGE_SET d) (Some cy),
        Read (RAM_READ d) ((x1 - x0 + 1) * (y1 - y0 + 1) * calcsize (DECODE_PIXEL d))]\<rparr>)"
  using assms by (simp add: block_def io_simps io_bind_write io_bind_read io_return_def Let_def)

lemma block_x_fails:
  assumes "encode_pos d (x0 + X_START d) (x1 + X_START d) = Inl e"
  shows "block d x0 y0 x1 y1 data s = (Inl e, s)"
  using assms by (simp add: block_def io_simps)

lemma block_y_fails:
  assumes "encode_pos d (x0 + X_START d) (x1 + X_START d) = Inr cx"
    and "encode_pos d (y0 + Y_START d) (y1 + Y_START d) = Inl e"
  shows "block d x0 y0 x1 y1 data s = (Inl e, s\<lparr>calls := calls s @ [Write (COLUMN_SET d) (Some cx)]\<rparr>)"
  using assms by (simp add: block_def io_simps io_bind_write)

lemma block_write_cases:
  obtains (x_fails) e where "encode_pos d (x0 + X_START d) (x1 + X_START d) = Inl e"
      "block d x0 y0 x1 y1 (Some bs) s = (Inl e, s)"
  | (y_fails) cx e where "encode_pos d (x0 + X_START d) (x1 + X_START d) = Inr cx"
      "encode_pos d (y0 + Y_START d) (y1 + Y_START d) = Inl e"
      "block d x0 y0 x1 y1 (Some bs) s = (Inl e, s\<lparr>calls := calls s @ [Write (COLUMN_SET d) (Some cx)]\<rparr>)"
  | (ok) cx cy where "encode_pos d (x0 + X_START d) (x1 + X_START d) = Inr cx"
      "encode_pos d (y0 + Y_START d) (y1 + Y_START d) = Inr cy"
      "block d x0 y0 x1 y1 (Some bs) s = (Inr None, s\<lparr>calls := calls s @
         [Write (COLUMN_SET d) (Some cx), Write (PAGE_SET d) (Some cy), Write (RAM_WRITE d) (Some bs)]\<rparr>)"
proof (cases "encode_pos d (x0 + X_START d) (x1 + X_START d)")
  case (Inl e)
  then show ?thesis using x_fails block_x_fails by blast
next
  case cx: (Inr cx)
  show ?thesis
  proof (cases "encode_pos d (y0 + Y_START d) (y1 + Y_START d)")
    case (Inl e)
    then show ?thesis using y_fails cx block_y_fails by blast
  next
    case (Inr cy)
    then show ?thesis using ok cx block_write by blast
  qed
qed

lemma write_chunks_calls:
  "write_chunks n data s = (Inr (), s\<lparr>calls := calls s @ replicate n (Write None (Some data))\<rparr>)"
proof (induction n arbitrary: s)
  case 0 show ?case by (simp add: io_return_def)
next
  case (Suc n) show ?case by (simp add: io_bind_write Suc replicate_app_Cons_same)
qed

section \<open>Single pixels\<close>

lemma pixel_read_calls:
  assumes cx: "encode_pos d (x + X_START d) (x + X_START d) = Inr cx"
    and cy: "encode_pos d (y + Y_START d) (y + Y_START d) = Inr cy"
  shows "calls (snd (pixel d x y None s)) = calls s @
     [Write (COLUMN_SET d) (Some cx), Write (PAGE_SET d) (Some cy),
      Read (RAM_READ d) (calcsize (DECODE_PIXEL d))]"
proof -
  have n: "0 \<le> (x - x + 1) * (y - y + 1) * calcsize (DECODE_PIXEL d)"
    using calcsize_nonneg [of "DECODE_PIXEL d"] by simp
  show ?thesis
    unfolding pixel_def
    by (simp add: io_bind_def block_read [OF cx cy n] io_lift_def io_return_def split: sum.split)
qed

lemma pixel_write_calls:
  assumes cx: "encode_pos d (x + X_START d) (x + X_START d) = Inr cx"
    and cy: "encode_pos d (y + Y_START d) (y + Y_START d) = Inr cy"
    and inside: "0 \<le> x" "x < width d" "0 \<le> y" "y < height d"
    and px: "encode_pixel d color = Inr px"
  shows "pixel d x y (Some color) s = (Inr PyNone, s\<lparr>calls := calls s @
     [Write (COLUMN_SET d) (Some cx), Write (PAGE_SET d) (Some cy), Write (RAM_WRITE d) (Some px)]\<rparr>)"
  unfolding pixel_def using inside
  by (simp add: io_bind_def block_write [OF cx cy] io_lift_def io_return_def px)

lemma pixel_write_outside:
  assumes "\<not> (0 \<le> x \<and> x < width d \<and> 0 \<le> y \<and> y < height d)"
  shows "pixel d x y (Some color) s = (Inr PyNone, s)"
proof -
  have "(if 0 \<le> x \<and> x < width d \<and> 0 \<le> y \<and> y < height d then a else b) = b" for a b :: "py_value io"
    using assms by (rule if_not_P)
  then show ?thesis by (simp add: pixel_def io_return_def)
qed

text \<open>
  C6.  For every \<open>(x, y)\<close> outside the panel and every colour, \<open>pixel\<close> with a colour
  returns \<^verbatim>\<open>None\<close> without an error and leaves the bus as it was: no transport call is
  made, so no command byte and no data byte reaches the link.
\<close>

theorem write_pixel_outside_is_dropped:
  assumes "\<not> (0 \<le> x \<and> x < width d \<and> 0 \<le> y \<and> y < height d)"
  shows "pixel d x y (Some color) s = (Inr PyNone, s) \<and>
         calls (snd (pixel d x y (Some color) s)) = calls s \<and>
         spi_wire (snd (pixel d x y (Some color) s)) = spi_wire s"
  using pixel_write_outside [OF assms] by simp

theorem write_pixel_outside_is_dropped_witness:
  "\<not> (0 \<le> (- 1 :: int) \<and> - 1 < width panel2 \<and> 0 \<le> (0 :: int) \<and> 0 < height panel2) \<and>
   \<not> (0 \<le> (2 :: int) \<and> 2 < width panel2 \<and> 0 \<le> (0 :: int) \<and> 0 < height panel2) \<and>
   pixel panel2 (- 1) 0 (Some 0xF800) red_bus = (Inr PyNone, red_bus) \<and>
   pixel panel2 2 0 (Some 0xF800) red_bus = (Inr PyNone, red_bus) \<and>
   spi_wire (snd (pixel panel2 2 0 (Some 0xF800) red_bus)) = []"
proof -
  have a: "\<not> (0 \<le> (- 1 :: int) \<and> - 1 < width panel2 \<and> 0 \<le> (0 :: int) \<and> 0 < height panel2)"
    by simp
  have b: "\<not> (0 \<le> (2 :: int) \<and> 2 < width panel2 \<and> 0 \<le> (0 :: int) \<and> 0 < height panel2)"
    by (simp add: panel2_def DisplaySPI_def Display_def)
  have e: "spi_wire red_bus = []" by (simp add: spi_wire_def red_bus_def)
  show ?thesis
    using a b e write_pixel_outside_is_dropped [OF a, of "0xF800" red_bus]
      write_pixel_outside_is_dropped [OF b, of "0xF800" red_bus]
    by simp
qed

section \<open>Filling rectangles\<close>

lemma bytes_mul_chunks:
  assumes "0 \<le> n" and "0 < B"
  shows "concat (replicate (nat (n div B)) (bytes_mul px B)) @ bytes_mul px (n mod B) = bytes_mul px n"
proof -
  have split: "nat n = nat (n div B) * nat B + nat (n mod B)"
  proof -
    have "n = (n div B) * B + n mod B" by simp
    moreover have "0 \<le> n div B" "0 \<le> n mod B" using assms by (simp_all add: pos_imp_zdiv_nonneg_iff)
    ultimately show ?thesis
      by (metis assms(2) nat_add_distrib nat_mult_distrib mult_nonneg_nonneg less_imp_le)
  qed
  have rep: "concat (replicate a (concat (replicate b xs))) = concat (replicate (a * b) xs)" for a b and xs :: "byte list"
    by (induction a) (simp_all add: replicate_add)
  have "concat (replicate (nat n) px) = concat (replicate (nat (n div B) * nat B + nat (n mod B)) px)"
    using split by simp
  then show ?thesis
    unfolding bytes_mul_def rep by (simp add: replicate_add)
qed

lemma clamp_rect_bounds:
  assumes "clamp_rect d x y w h = (x', y', w', h')"
  shows "x' \<le> width d - 1" "y' \<le> height d - 1" "1 \<le> w'" "1 \<le> h'" "x' + w' \<le> width d" "y' + h' \<le> height d"
    "0 < width d \<Longrightarrow> 0 \<le> x'" "0 < height d \<Longrightarrow> 0 \<le> y'"
proof -
  have x': "x' = min (width d - 1) (max 0 x)" and y': "y' = min (height d - 1) (max 0 y)"
    and w': "w' = min (width d - x') (max 1 w)" and h': "h' = min (height d - y') (max 1 h)"
    using assms by (auto simp add: clamp_rect_def Let_def)
  show "x' \<le> width d - 1" using x' by simp
  show "y' \<le> height d - 1" using y' by simp
  show "1 \<le> w'" using x' w' by simp
  show "1 \<le> h'" using y' h' by simp
  show "x' + w' \<le> width d" using w' by simp
  show "y' + h' \<le> height d" using h' by simp
  show "0 \<le> x'" if "0 < width d" using x' that by simp
  show "0 \<le> y'" if "0 < height d" using y' that by simp
qed

lemma clamp_rect_eq:
  assumes "clamp_rect d x y w h = (x', y', w', h')"
  shows "x' = min (width d - 1) (max 0 x)" "y' = min (height d - 1) (max 0 y)"
    "w' = min (width d - x') (max 1 w)" "h' = min (height d - y') (max 1 h)"
  using assms by (auto simp add: clamp_rect_def Let_def)

lemma fill_rectangle_calls:
  assumes cl: "clamp_rect d x y w h = (x', y', w', h')"
    and cx: "encode_pos d (x' + X_START d) (x' + w' - 1 + X_START d) = Inr cx"
    and cy: "encode_pos d (y' + Y_START d) (y' + h' - 1 + Y_START d) = Inr cy"
    and px: "encode_pixel d color = Inr px"
    and B: "0 < BUFFER_SIZE d"
  shows "fill_rectangle d x y w h color s =
    (Inr (), s\<lparr>calls := calls s @
       [Write (COLUMN_SET d) (Some cx), Write (PAGE_SET d) (Some cy), Write (RAM_WRITE d) (Some [])] @
       replicate (nat (w' * h' div BUFFER_SIZE d)) (Write None (Some (bytes_mul px (BUFFER_SIZE d)))) @
       [Write None (Some (bytes_mul px (w' * h' mod BUFFER_SIZE d)))]\<rparr>)"
proof -
  have dm: "py_divmod (w' * h') (BUFFER_SIZE d) = Inr (w' * h' div BUFFER_SIZE d, w' * h' mod BUFFER_SIZE d)"
    using B by (simp add: py_divmod_def)
  show ?thesis
    unfolding fill_rectangle_def cl
    by (simp add: io_bind_def block_write [OF cx cy] io_lift_def dm px write_chunks_calls
        io_return_def bus_write_def Let_def)
qed

lemma fill_rectangle_calls_general:
  assumes cl: "clamp_rect d x y w h = (x', y', w', h')"
    and cx: "encode_pos d (x' + X_START d) (x' + w' - 1 + X_START d) = Inr cx"
    and cy: "encode_pos d (y' + Y_START d) (y' + h' - 1 + Y_START d) = Inr cy"
  shows "\<exists>chunks. calls (snd (fill_rectangle d x y w h color s)) = calls s @
       [Write (COLUMN_SET d) (Some cx), Write (PAGE_SET d) (Some cy), Write (RAM_WRITE d) (Some [])] @
       map (\<lambda>bs. Write None (Some bs)) chunks"
proof (cases "BUFFER_SIZE d = 0")
  case True
  have "calls (snd (fill_rectangle d x y w h color s)) = calls s @
       [Write (COLUMN_SET d) (Some cx), Write (PAGE_SET d) (Some cy), Write (RAM_WRITE d) (Some [])] @
       map (\<lambda>bs. Write None (Some bs)) []"
    unfolding fill_rectangle_def cl
    by (simp add: io_bind_def block_write [OF cx cy] io_lift_def py_divmod_def True)
  then show ?thesis by blast
next
  case B: False
  show ?thesis
  proof (cases "encode_pixel d color")
    case (Inl e)
    have "calls (snd (fill_rectangle d x y w h color s)) = calls s @
       [Write (COLUMN_SET d) (Some cx), Write (PAGE_SET d) (Some cy), Write (RAM_WRITE d) (Some [])] @
       map (\<lambda>bs. Write None (Some bs)) []"
      unfolding fill_rectangle_def cl
      by (simp add: io_bind_def block_write [OF cx cy] io_lift_def py_divmod_def B Inl)
    then show ?thesis by blast
  next
    case (Inr px)
    let ?k = "nat (w' * h' div BUFFER_SIZE d)"
    have "calls (snd (fill_rectangle d x y w h color s)) = calls s @
       [Write (COLUMN_SET d) (Some cx), Write (PAGE_SET d) (Some cy), Write (RAM_WRITE d) (Some [])] @
       map (\<lambda>bs. Write None (Some bs))
         (replicate ?k (bytes_mul px (BUFFER_SIZE d)) @ [bytes_mul px (w' * h' mod BUFFER_SIZE d)])"
      unfolding fill_rectangle_def cl
      by (simp add: io_bind_def block_write [OF cx cy] io_lift_def py_divmod_def B Inr
          write_chunks_calls io_return_def bus_write_def Let_def)
    then show ?thesis by blast
  qed
qed

lemma fill_rectangle_unchunked_calls:
  assumes cl: "clamp_rect d x y w h = (x', y', w', h')"
    and cx: "encode_pos d (x' + X_START d) (x' + w' - 1 + X_START d) = Inr cx"
    and cy: "encode_pos d (y' + Y_START d) (y' + h' - 1 + Y_START d) = Inr cy"
    and px: "encode_pixel d color = Inr px"
  shows "fill_rectangle_unchunked d x y w h color s =
    (Inr (), s\<lparr>calls := calls s @
       [Write (COLUMN_SET d) (Some cx), Write (PAGE_SET d) (Some cy), Write (RAM_WRITE d) (Some []),
        Write None (Some (bytes_mul px (w' * h')))]\<rparr>)"
  unfolding fill_rectangle_unchunked_def cl
  by (simp add: io_bind_def block_write [OF cx cy] io_lift_def px bus_write_def)

lemma fill_rectangle_block_fails:
  assumes cl: "clamp_rect d x y w h = (x', y', w', h')"
    and "block d x' y' (x' + w' - 1) (y' + h' - 1) (Some []) s = (Inl e, s')"
  shows "fill_rectangle d x y w h color s = (Inl e, s')"
    and "fill_rectangle_unchunked d x y w h color s = (Inl e, s')"
  using assms(2) unfolding fill_rectangle_def fill_rectangle_unchunked_def cl
  by (simp_all add: io_bind_def)

lemma fill_rectangle_pixel_fails:
  assumes cl: "clamp_rect d x y w h = (x', y', w', h')"
    and "block d x' y' (x' + w' - 1) (y' + h' - 1) (Some []) s = (Inr r, s')"
    and "encode_pixel d color = Inl e" and "0 < BUFFER_SIZE d"
  shows "fill_rectangle d x y w h color s = (Inl e, s')"
    and "fill_rectangle_unchunked d x y w h color s = (Inl e, s')"
  using assms(2-) unfolding fill_rectangle_def fill_rectangle_unchunked_def cl
  by (simp_all add: io_bind_def io_lift_def py_divmod_def)

lemma wire_bytes_append: "wire_bytes (a @ b) = wire_bytes a @ wire_bytes b"
  by (simp add: wire_bytes_def)

lemma wire_bytes_data: "wire_bytes [Write None (Some bs)] = map (Pair True) bs"
  by (simp add: wire_bytes_def)

lemma wire_bytes_chunks:
  "wire_bytes (replicate k (Write None (Some bs))) = map (Pair True) (concat (replicate k bs))"
  by (induction k) (simp_all add: wire_bytes_def)

text \<open>
  C1.  With a positive buffer capacity, for every colour and every rectangle,
  \<open>fill_rectangle\<close> ends as the unchunked fill does and sends the same bytes to the
  panel, whether the pixel count is below or above the capacity.  When the window and the
  colour encode, the data writes after the RAM-write command are \<open>n div capacity\<close>
  writes of \<open>capacity\<close> pixels each and one last write of \<open>n mod capacity\<close> pixels
  (an empty write when the remainder is 0), where \<open>n\<close> is the pixel count of the clamped
  rectangle, and they concatenate to the encoded pixel repeated \<open>n\<close> times.
\<close>

theorem fill_rectangle_chunking_transparent:
  assumes B: "0 < BUFFER_SIZE d"
  shows "fst (fill_rectangle d x y w h color s) = fst (fill_rectangle_unchunked d x y w h color s) \<and>
    wire_bytes (calls (snd (fill_rectangle d x y w h color s))) =
      wire_bytes (calls (snd (fill_rectangle_unchunked d x y w h color s))) \<and>
    (\<forall>x' y' w' h' cx cy px.
       clamp_rect d x y w h = (x', y', w', h') \<and>
       encode_pos d (x' + X_START d) (x' + w' - 1 + X_START d) = Inr cx \<and>
       encode_pos d (y' + Y_START d) (y' + h' - 1 + Y_START d) = Inr cy \<and>
       encode_pixel d color = Inr px \<longrightarrow>
       calls (snd (fill_rectangle d x y w h color s)) = calls s @
         [Write (COLUMN_SET d) (Some cx), Write (PAGE_SET d) (Some cy), Write (RAM_WRITE d) (Some [])] @
         replicate (nat (w' * h' div BUFFER_SIZE d)) (Write None (Some (bytes_mul px (BUFFER_SIZE d)))) @
         [Write None (Some (bytes_mul px (w' * h' mod BUFFER_SIZE d)))] \<and>
       concat (replicate (nat (w' * h' div BUFFER_SIZE d)) (bytes_mul px (BUFFER_SIZE d))) @
         bytes_mul px (w' * h' mod BUFFER_SIZE d) = concat (replicate (nat (w' * h')) px))"
proof -
  obtain x' y' w' h' where cl: "clamp_rect d x y w h = (x', y', w', h')"
    by (cases "clamp_rect d x y w h") auto
  have n: "0 \<le> w' * h'" using clamp_rect_bounds(3,4) [OF cl] by simp
  note chunks = bytes_mul_chunks [OF n B]
  have explicit: "calls (snd (fill_rectangle d x y w h color s)) = calls s @
         [Write (COLUMN_SET d) (Some cx), Write (PAGE_SET d) (Some cy), Write (RAM_WRITE d) (Some [])] @
         replicate (nat (w' * h' div BUFFER_SIZE d)) (Write None (Some (bytes_mul px (BUFFER_SIZE d)))) @
         [Write None (Some (bytes_mul px (w' * h' mod BUFFER_SIZE d)))] \<and>
       concat (replicate (nat (w' * h' div BUFFER_SIZE d)) (bytes_mul px (BUFFER_SIZE d))) @
         bytes_mul px (w' * h' mod BUFFER_SIZE d) = concat (replicate (nat (w' * h')) px)"
    if "encode_pos d (x' + X_START d) (x' + w' - 1 + X_START d) = Inr cx"
      "encode_pos d (y' + Y_START d) (y' + h' - 1 + Y_START d) = Inr cy"
      "encode_pixel d color = Inr px" for cx cy px
    using fill_rectangle_calls [OF cl that B, of s] chunks [of px] by (simp add: bytes_mul_def)
  have same: "fst (fill_rectangle d x y w h color s) = fst (fill_rectangle_unchunked d x y w h color s) \<and>
    wire_bytes (calls (snd (fill_rectangle d x y w h color s))) =
      wire_bytes (calls (snd (fill_rectangle_unchunked d x y w h color s)))"
  proof (cases rule: block_write_cases [of d x' "x' + w' - 1" y' "y' + h' - 1" "[]" s])
    case (x_fails e)
    then show ?thesis using fill_rectangle_block_fails [OF cl] by simp
  next
    case (y_fails cx e)
    then show ?thesis using fill_rectangle_block_fails [OF cl] by simp
  next
    case (ok cx cy)
    show ?thesis
    proof (cases "encode_pixel d color")
      case (Inl e)
      then show ?thesis using fill_rectangle_pixel_fails [OF cl ok(3) _ B] by simp
    next
      case (Inr px)
      let ?win = "[Write (COLUMN_SET d) (Some cx), Write (PAGE_SET d) (Some cy), Write (RAM_WRITE d) (Some [])]"
      let ?full = "replicate (nat (w' * h' div BUFFER_SIZE d)) (Write None (Some (bytes_mul px (BUFFER_SIZE d))))"
      let ?last = "Write None (Some (bytes_mul px (w' * h' mod BUFFER_SIZE d)))"
      have c: "calls (snd (fill_rectangle d x y w h color s)) = calls s @ ?win @ ?full @ [?last]"
        and r: "fst (fill_rectangle d x y w h color s) = Inr ()"
        using fill_rectangle_calls [OF cl ok(1,2) Inr B, of s] by simp_all
      have u: "calls (snd (fill_rectangle_unchunked d x y w h color s)) =
          calls s @ ?win @ [Write None (Some (bytes_mul px (w' * h')))]"
        and ru: "fst (fill_rectangle_unchunked d x y w h color s) = Inr ()"
        using fill_rectangle_unchunked_calls [OF cl ok(1,2) Inr, of s] by simp_all
      have "wire_bytes (?full @ [?last]) = wire_bytes [Write None (Some (bytes_mul px (w' * h')))]"
        unfolding wire_bytes_append wire_bytes_chunks wire_bytes_data
        using chunks [of px] by (metis map_append)
      then show ?thesis
        unfolding c u r ru wire_bytes_append by simp
    qed
  qed
  show ?thesis using same explicit cl by simp
qed

theorem fill_rectangle_chunking_transparent_witness:
  "0 < BUFFER_SIZE panel320 \<and>
   clamp_rect panel320 10 20 17 16 = (10, 20, 17, 16) \<and> (256 :: int) < 17 * 16 \<and>
   encode_pixel panel320 0xF800 = Inr [248, 0] \<and>
   calls (snd (fill_rectangle panel320 10 20 17 16 0xF800 red_bus)) =
     [Write (Some 0x2A) (Some [0, 10, 0, 26]), Write (Some 0x2B) (Some [0, 20, 0, 35]),
      Write (Some 0x2C) (Some []),
      Write None (Some (bytes_mul [248, 0] 256)), Write None (Some (bytes_mul [248, 0] 16))] \<and>
   bytes_mul [248, 0] 256 @ bytes_mul [248, 0] 16 = concat (replicate 272 [248, 0]) \<and>
   wire_bytes (calls (snd (fill_rectangle panel320 10 20 17 16 0xF800 red_bus))) =
     wire_bytes (calls (snd (fill_rectangle_unchunked panel320 10 20 17 16 0xF800 red_bus))) \<and>
   clamp_rect panel320 0 0 3 2 = (0, 0, 3, 2) \<and> (3 :: int) * 2 < 256 \<and>
   calls (snd (fill_rectangle panel320 0 0 3 2 0xF800 red_bus)) =
     [Write (Some 0x2A) (Some [0, 0, 0, 2]), Write (Some 0x2B) (Some [0, 0, 0, 1]),
      Write (Some 0x2C) (Some []), Write None (Some (bytes_mul [248, 0] 6))] \<and>
   wire_bytes (calls (snd (fill_rectangle panel320 0 0 3 2 0xF800 red_bus))) =
     wire_bytes (calls (snd (fill_rectangle_unchunked panel320 0 0 3 2 0xF800 red_bus))) \<and>
   clamp_rect panel320 0 0 320 240 = (0, 0, 320, 240) \<and>
   calls (snd (fill_rectangle panel320 0 0 320 240 0xF800 red_bus)) =
     [Write (Some 0x2A) (Some [0, 0, 1, 63]), Write (Some 0x2B) (Some [0, 0, 0, 239]),
      Write (Some 0x2C) (Some [])] @
     replicate 300 (Write None (Some (bytes_mul [248, 0] 256))) @ [Write None (Some [])]"
proof -
  have B: "0 < BUFFER_SIZE panel320" by code_simp
  have ops: "BUFFER_SIZE panel320 = 256" "COLUMN_SET panel320 = Some 0x2A"
    "PAGE_SET panel320 = Some 0x2B" "RAM_WRITE panel320 = Some 0x2C" "calls red_bus = []"
    by code_simp+
  have above: "clamp_rect panel320 10 20 17 16 = (10, 20, 17, 16) \<and>
      encode_pos panel320 (10 + X_START panel320) (10 + 17 - 1 + X_START panel320) = Inr [0, 10, 0, 26] \<and>
      encode_pos panel320 (20 + Y_START panel320) (20 + 16 - 1 + Y_START panel320) = Inr [0, 20, 0, 35] \<and>
      encode_pixel panel320 0xF800 = Inr [248, 0]"
    by code_simp
  have below: "clamp_rect panel320 0 0 3 2 = (0, 0, 3, 2) \<and>
      encode_pos panel320 (0 + X_START panel320) (0 + 3 - 1 + X_START panel320) = Inr [0, 0, 0, 2] \<and>
      encode_pos panel320 (0 + Y_START panel320) (0 + 2 - 1 + Y_START panel320) = Inr [0, 0, 0, 1] \<and>
      encode_pixel panel320 0xF800 = Inr [248, 0]"
    by code_simp
  have whole: "clamp_rect panel320 0 0 320 240 = (0, 0, 320, 240) \<and>
      encode_pos panel320 (0 + X_START panel320) (0 + 320 - 1 + X_START panel320) = Inr [0, 0, 1, 63] \<and>
      encode_pos panel320 (0 + Y_START panel320) (0 + 240 - 1 + Y_START panel320) = Inr [0, 0, 0, 239] \<and>
      encode_pixel panel320 0xF800 = Inr [248, 0]"
    by code_simp
  have empty: "bytes_mul bs 0 = []" for bs by (simp add: bytes_mul_def)
  note a = fill_rectangle_chunking_transparent [OF B, of 10 20 17 16 "0xF800" red_bus]
  note b = fill_rectangle_chunking_transparent [OF B, of 0 0 3 2 "0xF800" red_bus]
  note c = fill_rectangle_chunking_transparent [OF B, of 0 0 320 240 "0xF800" red_bus]
  note a' = a [THEN conjunct2, THEN conjunct2, rule_format, OF above]
  note b' = b [THEN conjunct2, THEN conjunct2, rule_format, OF below]
  note c' = c [THEN conjunct2, THEN conjunct2, rule_format, OF whole]
  have 1: "calls (snd (fill_rectangle panel320 10 20 17 16 0xF800 red_bus)) =
     [Write (Some 0x2A) (Some [0, 10, 0, 26]), Write (Some 0x2B) (Some [0, 20, 0, 35]),
      Write (Some 0x2C) (Some []),
      Write None (Some (bytes_mul [248, 0] 256)), Write None (Some (bytes_mul [248, 0] 16))]"
    using a' [THEN conjunct1] by (simp add: ops)
  have 2: "bytes_mul [248, 0] 256 @ bytes_mul [248, 0] 16 = concat (replicate 272 [248, 0])"
    using a' [THEN conjunct2] by (simp add: ops)
  have 3: "calls (snd (fill_rectangle panel320 0 0 3 2 0xF800 red_bus)) =
     [Write (Some 0x2A) (Some [0, 0, 0, 2]), Write (Some 0x2B) (Some [0, 0, 0, 1]),
      Write (Some 0x2C) (Some []), Write None (Some (bytes_mul [248, 0] 6))]"
    using b' [THEN conjunct1] by (simp add: ops)
  have 4: "calls (snd (fill_rectangle panel320 0 0 320 240 0xF800 red_bus)) =
     [Write (Some 0x2A) (Some [0, 0, 1, 63]), Write (Some 0x2B) (Some [0, 0, 0, 239]),
      Write (Some 0x2C) (Some [])] @
     replicate 300 (Write None (Some (bytes_mul [248, 0] 256))) @ [Write None (Some [])]"
    using c' [THEN conjunct1] by (simp add: ops empty)
  show ?thesis
    using B above below whole 1 2 3 4 a [THEN conjunct2, THEN conjunct1]
      b [THEN conjunct2, THEN conjunct1]
    by simp
qed

lemma encode_pos_default:
  assumes "ENCODE_POS d = [FmtH, FmtH]" and "0 \<le> a" "a \<le> 65535" "0 \<le> b" "b \<le> 65535"
  shows "encode_pos d a b =
    Inr [word_of_int (a div 256), word_of_int (a mod 256), word_of_int (b div 256), word_of_int (b mod 256)]"
  using assms by (simp add: encode_pos_def)

text \<open>
  C3.  On a panel of positive width and height whose offset window fits the 16-bit
  position format, with a colour that encodes and a positive buffer capacity: for all
  \<open>x\<close>, \<open>y\<close>, \<open>w\<close>, \<open>h\<close> (negative and oversized ones too) the clamped origin is
  \<open>x\<close> and \<open>y\<close> brought into \<open>0 .. width - 1\<close> and \<open>0 .. height - 1\<close>, so it is
  inside the panel and an origin inside the panel is kept; the clamped width and height
  are \<open>w\<close> and \<open>h\<close> raised to at least 1 and cut to the space that remains from the
  clamped origin to the panel edge, so the clamped rectangle does not pass the edge;
  \<open>fill_rectangle\<close> sets the window over exactly that rectangle and then streams the
  encoded pixel width times height times, in the writes it names.
\<close>

theorem fill_rectangle_stays_inside_panel:
  assumes dims: "0 < width d" "0 < height d"
    and fmt: "ENCODE_POS d = [FmtH, FmtH]"
    and xoff: "0 \<le> X_START d" "X_START d + width d \<le> 65536"
    and yoff: "0 \<le> Y_START d" "Y_START d + height d \<le> 65536"
    and px: "encode_pixel d color = Inr px"
    and B: "0 < BUFFER_SIZE d"
  shows "\<exists>x' y' w' h' cx cy chunks.
    x' = min (width d - 1) (max 0 x) \<and> y' = min (height d - 1) (max 0 y) \<and>
    w' = min (width d - x') (max 1 w) \<and> h' = min (height d - y') (max 1 h) \<and>
    clamp_rect d x y w h = (x', y', w', h') \<and>
    0 \<le> x' \<and> x' < width d \<and> 0 \<le> y' \<and> y' < height d \<and>
    1 \<le> w' \<and> 1 \<le> h' \<and> x' + w' \<le> width d \<and> y' + h' \<le> height d \<and>
    encode_pos d (x' + X_START d) (x' + w' - 1 + X_START d) = Inr cx \<and>
    encode_pos d (y' + Y_START d) (y' + h' - 1 + Y_START d) = Inr cy \<and>
    chunks = replicate (nat (w' * h' div BUFFER_SIZE d)) (bytes_mul px (BUFFER_SIZE d)) @
      [bytes_mul px (w' * h' mod BUFFER_SIZE d)] \<and>
    fill_rectangle d x y w h color s =
      (Inr (), s\<lparr>calls := calls s @
         [Write (COLUMN_SET d) (Some cx), Write (PAGE_SET d) (Some cy), Write (RAM_WRITE d) (Some [])] @
         map (\<lambda>bs. Write None (Some bs)) chunks\<rparr>) \<and>
    concat chunks = concat (replicate (nat (w' * h')) px)"
proof -
  obtain x' y' w' h' where cl: "clamp_rect d x y w h = (x', y', w', h')"
    by (cases "clamp_rect d x y w h") auto
  note eq = clamp_rect_eq [OF cl]
  note b = clamp_rect_bounds [OF cl]
  have x0: "0 \<le> x'" and y0: "0 \<le> y'" using b(7,8) dims by simp_all
  have inside: "x' < width d" "y' < height d" using b(1,2) by simp_all
  obtain cx where cx: "encode_pos d (x' + X_START d) (x' + w' - 1 + X_START d) = Inr cx"
    using encode_pos_default [OF fmt, of "x' + X_START d" "x' + w' - 1 + X_START d"]
      x0 b(3,5) xoff by simp
  obtain cy where cy: "encode_pos d (y' + Y_START d) (y' + h' - 1 + Y_START d) = Inr cy"
    using encode_pos_default [OF fmt, of "y' + Y_START d" "y' + h' - 1 + Y_START d"]
      y0 b(4,6) yoff by simp
  define chunks where "chunks =
     replicate (nat (w' * h' div BUFFER_SIZE d)) (bytes_mul px (BUFFER_SIZE d)) @
     [bytes_mul px (w' * h' mod BUFFER_SIZE d)]"
  have n: "0 \<le> w' * h'" using b(3,4) by simp
  have run: "fill_rectangle d x y w h color s =
      (Inr (), s\<lparr>calls := calls s @
         [Write (COLUMN_SET d) (Some cx), Write (PAGE_SET d) (Some cy), Write (RAM_WRITE d) (Some [])] @
         map (\<lambda>bs. Write None (Some bs)) chunks\<rparr>)"
    using fill_rectangle_calls [OF cl cx cy px B, of s] by (simp add: chunks_def)
  have sum: "concat chunks = concat (replicate (nat (w' * h')) px)"
    using bytes_mul_chunks [OF n B, of px] by (simp add: bytes_mul_def chunks_def)
  show ?thesis
    using eq cl x0 y0 inside b(3,4,5,6) cx cy chunks_def run sum by blast
qed

theorem fill_rectangle_stays_inside_panel_witness:
  "0 < width panel2 \<and> 0 < height panel2 \<and> ENCODE_POS panel2 = [FmtH, FmtH] \<and>
   0 \<le> X_START panel2 \<and> X_START panel2 + width panel2 \<le> 65536 \<and>
   0 \<le> Y_START panel2 \<and> Y_START panel2 + height panel2 \<le> 65536 \<and>
   encode_pixel panel2 0xF800 = Inr [248, 0] \<and> 0 < BUFFER_SIZE panel2 \<and>
   clamp_rect panel2 (- 3) 7 100 0 = (0, 1, 2, 1) \<and>
   fill_rectangle panel2 (- 3) 7 100 0 0xF800 red_bus =
     (Inr (), red_bus\<lparr>calls :=
        [Write (Some 0x2A) (Some [0, 0, 0, 1]), Write (Some 0x2B) (Some [0, 1, 0, 1]),
         Write (Some 0x2C) (Some []), Write None (Some [248, 0, 248, 0])]\<rparr>) \<and>
   clamp_rect panel2 1 0 1 2 = (1, 0, 1, 2) \<and>
   fill_rectangle panel2 1 0 1 2 0xF800 red_bus =
     (Inr (), red_bus\<lparr>calls :=
        [Write (Some 0x2A) (Some [0, 1, 0, 1]), Write (Some 0x2B) (Some [0, 0, 0, 1]),
         Write (Some 0x2C) (Some []), Write None (Some [248, 0, 248, 0])]\<rparr>)"
proof -
  have h: "0 < width panel2" "0 < height panel2" "ENCODE_POS panel2 = [FmtH, FmtH]"
    "0 \<le> X_START panel2" "X_START panel2 + width panel2 \<le> 65536"
    "0 \<le> Y_START panel2" "Y_START panel2 + height panel2 \<le> 65536"
    "encode_pixel panel2 0xF800 = Inr [248, 0]" "0 < BUFFER_SIZE panel2"
    by code_simp+
  have v: "width panel2 = 2" "height panel2 = 2" "X_START panel2 = 0" "Y_START panel2 = 0"
    "BUFFER_SIZE panel2 = 256" "COLUMN_SET panel2 = Some 0x2A" "PAGE_SET panel2 = Some 0x2B"
    "RAM_WRITE panel2 = Some 0x2C" "calls red_bus = []"
    by code_simp+
  have e: "encode_pos panel2 0 1 = Inr [0, 0, 0, 1]" "encode_pos panel2 1 1 = Inr [0, 1, 0, 1]"
    by code_simp+
  have m: "bytes_mul [248, 0] 2 = [248, 0, 248, 0]" "bytes_mul [248, 0] 256 = concat (replicate 256 [248, 0])"
    by (simp_all add: bytes_mul_def numeral_2_eq_2)
  from fill_rectangle_stays_inside_panel [OF h, of "- 3" 7 100 0 red_bus]
  have a: "clamp_rect panel2 (- 3) 7 100 0 = (0, 1, 2, 1) \<and>
   fill_rectangle panel2 (- 3) 7 100 0 0xF800 red_bus =
     (Inr (), red_bus\<lparr>calls :=
        [Write (Some 0x2A) (Some [0, 0, 0, 1]), Write (Some 0x2B) (Some [0, 1, 0, 1]),
         Write (Some 0x2C) (Some []), Write None (Some [248, 0, 248, 0])]\<rparr>)"
    by (auto simp add: v e m)
  from fill_rectangle_stays_inside_panel [OF h, of 1 0 1 2 red_bus]
  have b: "clamp_rect panel2 1 0 1 2 = (1, 0, 1, 2) \<and>
   fill_rectangle panel2 1 0 1 2 0xF800 red_bus =
     (Inr (), red_bus\<lparr>calls :=
        [Write (Some 0x2A) (Some [0, 1, 0, 1]), Write (Some 0x2B) (Some [0, 0, 0, 1]),
         Write (Some 0x2C) (Some []), Write None (Some [248, 0, 248, 0])]\<rparr>)"
    by (auto simp add: v e m)
  show ?thesis using h a b by simp
qed

section \<open>The window commands\<close>

text \<open>
  C2, as amended.  A pixel read, a pixel write inside the panel whose colour encodes,
  and a rectangle fill, each with window positions that \<open>encode_pos\<close> accepts, issue
  exactly one column-set command with the payload \<open>encode_pos (x0 + X_START, x1 + X_START)\<close>,
  then exactly one page-set command with the payload \<open>encode_pos (y0 + Y_START, y1 + Y_START)\<close>,
  then the single RAM-read or RAM-write command; whatever follows in a fill is data
  without a command.  A pixel write outside the panel issues no command at all: it
  returns \<^verbatim>\<open>None\<close> and leaves the bus as it was.
\<close>

theorem window_commands_precede_ram_command:
  "(\<forall>cx cy.
      encode_pos d (x + X_START d) (x + X_START d) = Inr cx \<and>
      encode_pos d (y + Y_START d) (y + Y_START d) = Inr cy \<longrightarrow>
      calls (snd (pixel d x y None s)) = calls s @
        [Write (COLUMN_SET d) (Some cx), Write (PAGE_SET d) (Some cy),
         Read (RAM_READ d) (calcsize (DECODE_PIXEL d))] \<and>
      (\<forall>px. 0 \<le> x \<and> x < width d \<and> 0 \<le> y \<and> y < height d \<and> encode_pixel d color = Inr px \<longrightarrow>
         calls (snd (pixel d x y (Some color) s)) = calls s @
           [Write (COLUMN_SET d) (Some cx), Write (PAGE_SET d) (Some cy),
            Write (RAM_WRITE d) (Some px)])) \<and>
   (\<forall>x' y' w' h' cx cy.
      clamp_rect d x y w h = (x', y', w', h') \<and>
      encode_pos d (x' + X_START d) (x' + w' - 1 + X_START d) = Inr cx \<and>
      encode_pos d (y' + Y_START d) (y' + h' - 1 + Y_START d) = Inr cy \<longrightarrow>
      (\<exists>chunks. calls (snd (fill_rectangle d x y w h color s)) = calls s @
         [Write (COLUMN_SET d) (Some cx), Write (PAGE_SET d) (Some cy),
          Write (RAM_WRITE d) (Some [])] @ map (\<lambda>bs. Write None (Some bs)) chunks)) \<and>
   (\<not> (0 \<le> x \<and> x < width d \<and> 0 \<le> y \<and> y < height d) \<longrightarrow>
      pixel d x y (Some color) s = (Inr PyNone, s) \<and>
      calls (snd (pixel d x y (Some color) s)) = calls s)"
proof (intro conjI allI impI)
  fix cx cy
  assume "encode_pos d (x + X_START d) (x + X_START d) = Inr cx \<and>
      encode_pos d (y + Y_START d) (y + Y_START d) = Inr cy"
  then show "calls (snd (pixel d x y None s)) = calls s @
        [Write (COLUMN_SET d) (Some cx), Write (PAGE_SET d) (Some cy),
         Read (RAM_READ d) (calcsize (DECODE_PIXEL d))]"
    using pixel_read_calls by blast
next
  fix cx cy px
  assume "encode_pos d (x + X_START d) (x + X_START d) = Inr cx \<and>
      encode_pos d (y + Y_START d) (y + Y_START d) = Inr cy"
    and "0 \<le> x \<and> x < width d \<and> 0 \<le> y \<and> y < height d \<and> encode_pixel d color = Inr px"
  then show "calls (snd (pixel d x y (Some color) s)) = calls s @
           [Write (COLUMN_SET d) (Some cx), Write (PAGE_SET d) (Some cy),
            Write (RAM_WRITE d) (Some px)]"
    using pixel_write_calls [of d x cx y cy color px s] by simp
next
  fix x' y' w' h' cx cy
  assume "clamp_rect d x y w h = (x', y', w', h') \<and>
      encode_pos d (x' + X_START d) (x' + w' - 1 + X_START d) = Inr cx \<and>
      encode_pos d (y' + Y_START d) (y' + h' - 1 + Y_START d) = Inr cy"
  then show "\<exists>chunks. calls (snd (fill_rectangle d x y w h color s)) = calls s @
         [Write (COLUMN_SET d) (Some cx), Write (PAGE_SET d) (Some cy),
          Write (RAM_WRITE d) (Some [])] @ map (\<lambda>bs. Write None (Some bs)) chunks"
    using fill_rectangle_calls_general by blast
next
  assume out: "\<not> (0 \<le> x \<and> x < width d \<and> 0 \<le> y \<and> y < height d)"
  show "pixel d x y (Some color) s = (Inr PyNone, s)"
    using pixel_write_outside [OF out] .
next
  assume out: "\<not> (0 \<le> x \<and> x < width d \<and> 0 \<le> y \<and> y < height d)"
  show "calls (snd (pixel d x y (Some color) s)) = calls s"
    using pixel_write_outside [OF out, of color s] by simp
qed

theorem window_commands_precede_ram_command_witness:
  "encode_pos panel2 (1 + X_START panel2) (1 + X_START panel2) = Inr [0, 1, 0, 1] \<and>
   encode_pos panel2 (1 + Y_START panel2) (1 + Y_START panel2) = Inr [0, 1, 0, 1] \<and>
   (0 \<le> (1::int) \<and> 1 < width panel2 \<and> 0 \<le> (1::int) \<and> 1 < height panel2 \<and>
    encode_pixel panel2 0xF800 = Inr [248, 0]) \<and>
   clamp_rect panel2 1 1 2 2 = (1, 1, 1, 1) \<and>
   calls (snd (pixel panel2 1 1 None red_bus)) = calls red_bus @
     [Write (COLUMN_SET panel2) (Some [0, 1, 0, 1]), Write (PAGE_SET panel2) (Some [0, 1, 0, 1]),
      Read (RAM_READ panel2) (calcsize (DECODE_PIXEL panel2))] \<and>
   calls (snd (pixel panel2 1 1 (Some 0xF800) red_bus)) = calls red_bus @
     [Write (COLUMN_SET panel2) (Some [0, 1, 0, 1]), Write (PAGE_SET panel2) (Some [0, 1, 0, 1]),
      Write (RAM_WRITE panel2) (Some [248, 0])] \<and>
   (\<exists>chunks. calls (snd (fill_rectangle panel2 1 1 2 2 0xF800 red_bus)) = calls red_bus @
     [Write (COLUMN_SET panel2) (Some [0, 1, 0, 1]), Write (PAGE_SET panel2) (Some [0, 1, 0, 1]),
      Write (RAM_WRITE panel2) (Some [])] @ map (\<lambda>bs. Write None (Some bs)) chunks) \<and>
   \<not> (0 \<le> (2::int) \<and> 2 < width panel2 \<and> 0 \<le> (0::int) \<and> 0 < height panel2) \<and>
   pixel panel2 2 0 (Some 0xF800) red_bus = (Inr PyNone, red_bus) \<and>
   calls (snd (pixel panel2 2 0 (Some 0xF800) red_bus)) = calls red_bus"
proof -
  have p: "encode_pos panel2 (1 + X_START panel2) (1 + X_START panel2) = Inr [0, 1, 0, 1] \<and>
      encode_pos panel2 (1 + Y_START panel2) (1 + Y_START panel2) = Inr [0, 1, 0, 1]"
    by code_simp
  have q: "0 \<le> (1::int) \<and> 1 < width panel2 \<and> 0 \<le> (1::int) \<and> 1 < height panel2 \<and>
      encode_pixel panel2 0xF800 = Inr [248, 0]"
    by code_simp
  have h: "clamp_rect panel2 1 1 2 2 = (1, 1, 1, 1) \<and>
      encode_pos panel2 (1 + X_START panel2) (1 + 1 - 1 + X_START panel2) = Inr [0, 1, 0, 1] \<and>
      encode_pos panel2 (1 + Y_START panel2) (1 + 1 - 1 + Y_START panel2) = Inr [0, 1, 0, 1]"
    by code_simp
  have o: "\<not> (0 \<le> (2::int) \<and> 2 < width panel2 \<and> 0 \<le> (0::int) \<and> 0 < height panel2)"
    by code_simp
  note t = window_commands_precede_ram_command
    [where d = panel2 and x = 1 and y = 1 and s = red_bus and color = "0xF800" and w = 2 and h = 2]
  note u = window_commands_precede_ram_command
    [where d = panel2 and x = 2 and y = 0 and s = red_bus and color = "0xF800" and w = 2 and h = 2]
  note r = t [THEN conjunct1, rule_format, OF p, THEN conjunct1]
  note w = t [THEN conjunct1, rule_format, OF p, THEN conjunct2, rule_format, OF q]
  note f = t [THEN conjunct2, THEN conjunct1, rule_format, OF h]
  note d = u [THEN conjunct2, THEN conjunct2, rule_format, OF o]
  show ?thesis using p q h o r w f d by simp
qed

text \<open>
  C2 as stated fails for a pixel write outside the panel: at \<open>(width, 0)\<close> the position
  would encode, but no column-set command (no call at all) is issued.  Nor is one issued
  by a read at \<open>(- 1, 0)\<close>, whose position does not encode, or by a write of the
  colour 70000, which does not encode.
\<close>

theorem window_commands_counterexample:
  "encode_pos panel2 (2 + X_START panel2) (2 + X_START panel2) = Inr [0, 2, 0, 2] \<and>
   fst (pixel panel2 2 0 (Some 0xF800) red_bus) = Inr PyNone \<and>
   calls (snd (pixel panel2 2 0 (Some 0xF800) red_bus)) = [] \<and>
   Write (COLUMN_SET panel2) (Some [0, 2, 0, 2]) \<notin> set (calls (snd (pixel panel2 2 0 (Some 0xF800) red_bus))) \<and>
   fst (pixel panel2 (- 1) 0 None red_bus) = Inl StructError \<and>
   calls (snd (pixel panel2 (- 1) 0 None red_bus)) = [] \<and>
   fst (pixel panel2 0 0 (Some 70000) red_bus) = Inl StructError \<and>
   calls (snd (pixel panel2 0 0 (Some 70000) red_bus)) = []"
  by code_simp

section \<open>Reading a pixel\<close>

lemma upt_3: "[0..<3] = [0, 1, 2]"
  by (simp add: upt_rec)

text \<open>
  C5, as amended.  With the default decode format and a window that encodes (every
  in-bounds \<open>(x, y)\<close> of a panel whose offsets fit the position format), \<open>pixel\<close> without
  a colour sets the window to the one pixel at \<open>(x, y)\<close>, requests exactly 3 bytes with
  the RAM-read command and returns one integer: the three answered bytes packed to 565 by
  \<open>color565\<close>, not a triple of channels.
\<close>

theorem read_pixel_returns_packed_565:
  assumes fmt: "DECODE_PIXEL d = [FmtB, FmtB, FmtB]"
    and cx: "encode_pos d (x + X_START d) (x + X_START d) = Inr cx"
    and cy: "encode_pos d (y + Y_START d) (y + Y_START d) = Inr cy"
  shows "pixel d x y None s =
    (let answer = device s (calls s @ [Write (COLUMN_SET d) (Some cx), Write (PAGE_SET d) (Some cy)]);
         r = uint (answer 0); g = uint (answer 1); b = uint (answer 2)
     in (Inr (PyInt (((push_bit 8 (r AND 0xf8)) OR (push_bit 3 (g AND 0xfc))) OR (drop_bit 3 b))),
         s\<lparr>calls := calls s @
           [Write (COLUMN_SET d) (Some cx), Write (PAGE_SET d) (Some cy), Read (RAM_READ d) 3]\<rparr>))"
proof -
  have size: "calcsize (DECODE_PIXEL d) = 3" by (simp add: fmt calcsize_def)
  have n: "0 \<le> (x - x + 1) * (y - y + 1) * calcsize (DECODE_PIXEL d)" by (simp add: size)
  show ?thesis
    unfolding pixel_def
    by (simp add: io_bind_def block_read [OF cx cy n] size upt_3 io_lift_def io_return_def
        decode_pixel_def struct_unpack_def fmt calcsize_def Let_def)
qed

theorem read_pixel_returns_packed_565_witness:
  "DECODE_PIXEL panel2 = [FmtB, FmtB, FmtB] \<and>
   encode_pos panel2 (1 + X_START panel2) (1 + X_START panel2) = Inr [0, 1, 0, 1] \<and>
   encode_pos panel2 (1 + Y_START panel2) (1 + Y_START panel2) = Inr [0, 1, 0, 1] \<and>
   fst (pixel panel2 1 1 None (snd (fill panel2 0xF800 red_bus))) = Inr (PyInt 0xF800) \<and>
   calls (snd (pixel panel2 1 1 None (snd (fill panel2 0xF800 red_bus)))) =
     calls (snd (fill panel2 0xF800 red_bus)) @
     [Write (Some 0x2A) (Some [0, 1, 0, 1]), Write (Some 0x2B) (Some [0, 1, 0, 1]), Read (Some 0x2E) 3]"
proof -
  have f: "DECODE_PIXEL panel2 = [FmtB, FmtB, FmtB]" by code_simp
  have p: "encode_pos panel2 (1 + X_START panel2) (1 + X_START panel2) = Inr [0, 1, 0, 1]"
    and q: "encode_pos panel2 (1 + Y_START panel2) (1 + Y_START panel2) = Inr [0, 1, 0, 1]"
    by code_simp+
  have dev: "device (snd (fill panel2 0xF800 red_bus)) = (\<lambda>history i. if i = 0 then 248 else 0)"
    by (simp add: fill_def fill_rectangle_def clamp_rect_def io_bind_def block_def io_lift_def
        bus_write_def io_return_def write_chunks_calls red_bus_def Let_def
        split: sum.split prod.split)
  have ops: "COLUMN_SET panel2 = Some 0x2A" "PAGE_SET panel2 = Some 0x2B" "RAM_READ panel2 = Some 0x2E"
    by code_simp+
  show ?thesis
    using f p q read_pixel_returns_packed_565 [OF f p q, of "snd (fill panel2 0xF800 red_bus)"]
    by (simp add: dev ops Let_def)
qed

text \<open>
  C5 as stated fails: on the 2 by 2 panel, after \<open>fill 0xF800\<close>, with the panel
  answering the bytes 248, 0, 0, the read at \<open>(1, 1)\<close> returns the integer 63488
  (\<open>0xF800\<close>), not the triple \<open>(248, 0, 0)\<close>.
\<close>

theorem read_pixel_triple_counterexample:
  "fst (pixel panel2 1 1 None (snd (fill panel2 0xF800 red_bus))) = Inr (PyInt 63488) \<and>
   fst (pixel panel2 1 1 None (snd (fill panel2 0xF800 red_bus))) \<noteq> Inr (PySeq [248, 0, 0])"
  by code_simp

text \<open>
  C10, as amended.  The read path has no bounds check: for every \<open>(x, y)\<close>, inside the
  panel or not, whose offset coordinates \<open>encode_pos\<close> accepts, \<open>pixel\<close> without a colour
  issues the column-set, page-set and RAM-read commands with the raw coordinates plus
  the offsets, while the write path leaves the bus untouched outside the panel.
\<close>

theorem read_pixel_has_no_bounds_check:
  assumes cx: "encode_pos d (x + X_START d) (x + X_START d) = Inr cx"
    and cy: "encode_pos d (y + Y_START d) (y + Y_START d) = Inr cy"
  shows "calls (snd (pixel d x y None s)) = calls s @
      [Write (COLUMN_SET d) (Some cx), Write (PAGE_SET d) (Some cy),
       Read (RAM_READ d) (calcsize (DECODE_PIXEL d))] \<and>
    (\<not> (0 \<le> x \<and> x < width d \<and> 0 \<le> y \<and> y < height d) \<longrightarrow>
       calls (snd (pixel d x y (Some color) s)) = calls s)"
  using pixel_read_calls [OF cx cy] pixel_write_outside [of x d y color s] by simp

theorem read_pixel_has_no_bounds_check_witness:
  "encode_pos panel2 (2 + X_START panel2) (2 + X_START panel2) = Inr [0, 2, 0, 2] \<and>
   encode_pos panel2 (5 + Y_START panel2) (5 + Y_START panel2) = Inr [0, 5, 0, 5] \<and>
   \<not> (0 \<le> (2::int) \<and> 2 < width panel2 \<and> 0 \<le> (5::int) \<and> 5 < height panel2) \<and>
   calls (snd (pixel panel2 2 5 None red_bus)) =
     [Write (Some 0x2A) (Some [0, 2, 0, 2]), Write (Some 0x2B) (Some [0, 5, 0, 5]), Read (Some 0x2E) 3] \<and>
   calls (snd (pixel panel2 2 5 (Some 0xF800) red_bus)) = []"
proof -
  have p: "encode_pos panel2 (2 + X_START panel2) (2 + X_START panel2) = Inr [0, 2, 0, 2]"
    and q: "encode_pos panel2 (5 + Y_START panel2) (5 + Y_START panel2) = Inr [0, 5, 0, 5]"
    and o: "\<not> (0 \<le> (2::int) \<and> 2 < width panel2 \<and> 0 \<le> (5::int) \<and> 5 < height panel2)"
    by code_simp+
  have ops: "COLUMN_SET panel2 = Some 0x2A" "PAGE_SET panel2 = Some 0x2B" "RAM_READ panel2 = Some 0x2E"
    "calcsize (DECODE_PIXEL panel2) = 3" "calls red_bus = []"
    by code_simp+
  note t = read_pixel_has_no_bounds_check [OF p q, of red_bus "0xF800"]
  show ?thesis using p q o t [THEN conjunct1] t [THEN conjunct2, rule_format, OF o]
    by (simp add: ops)
qed

text \<open>
  C10 as stated fails at a negative coordinate: \<open>(- 1, 0)\<close> with offset 0 does not
  encode as an unsigned 16-bit value, the read raises the struct error and no command
  is issued.
\<close>

theorem read_pixel_negative_counterexample:
  "\<not> (0 \<le> (- 1 :: int) \<and> - 1 < width panel2 \<and> 0 \<le> (0::int) \<and> 0 < height panel2) \<and>
   fst (pixel panel2 (- 1) 0 None red_bus) = Inl StructError \<and>
   calls (snd (pixel panel2 (- 1) 0 None red_bus)) = []"
  by code_simp

section \<open>Images: validation\<close>

lemma for_loop_error:
  assumes "for_loop xs body s = Inl e" and "\<And>x s e. body x s = Inl e \<Longrightarrow> P e"
  shows "P e"
  using assms(1)
proof (induction xs arbitrary: s)
  case Nil
  then show ?case by simp
next
  case (Cons x xs)
  show ?case
  proof (cases "body x s")
    case (Inl e')
    then show ?thesis using Cons.prems assms(2) by simp
  next
    case (Inr s')
    then show ?thesis using Cons by simp
  qed
qed

lemma color565_error: "color565 p g b = Inl e \<Longrightarrow> \<not> validation_error e"
  by (induction p g b rule: color565.induct) auto

lemma bytearray_set_error: "bytearray_set buf i v = Inl e \<Longrightarrow> \<not> validation_error e"
  by (auto simp: bytearray_set_def Let_def split: if_splits)

lemma put_pixel_error: "put_pixel d img x y buf = Inl e \<Longrightarrow> \<not> validation_error e"
  by (auto simp: put_pixel_def getpixel_def split: sum.splits prod.splits if_splits
      dest: color565_error bytearray_set_error)

lemma pack_code_error: "pack_code c v = Inl e \<Longrightarrow> e = StructError"
  by (cases c) (auto split: if_splits)

lemma struct_pack_error: "struct_pack fmt vs = Inl e \<Longrightarrow> e = StructError"
  by (induction fmt vs rule: struct_pack.induct)
    (auto split: sum.splits dest: pack_code_error)

lemma block_write_error:
  assumes "fst (block d x0 y0 x1 y1 (Some bs) s) = Inl e"
  shows "e = StructError"
proof (cases "encode_pos d (x0 + X_START d) (x1 + X_START d)")
  case (Inl e')
  then show ?thesis using assms struct_pack_error [of "ENCODE_POS d" _ e']
    by (simp add: block_def io_bind_def io_lift_def encode_pos_def)
next
  case cx: (Inr cx)
  show ?thesis
  proof (cases "encode_pos d (y0 + Y_START d) (y1 + Y_START d)")
    case (Inl e')
    then show ?thesis using assms cx struct_pack_error [of "ENCODE_POS d" _ e']
      by (simp add: block_def io_bind_def io_lift_def encode_pos_def bus_write_def)
  next
    case (Inr cy)
    then show ?thesis using assms cx
      by (simp add: block_def io_bind_def io_lift_def bus_write_def io_return_def)
  qed
qed

lemma image_rejected:
  assumes "mode img \<notin> {''RGB'', ''RGBA''} \<or> rotation \<notin> {0, 90, 180, 270} \<or>
     im_size (if rotation \<noteq> 0 then rotate_image img rotation else img) \<noteq> (width d, height d)"
  shows "\<exists>e. image d img rotation s = (Inl e, s) \<and> validation_error e"
proof -
  obtain iw ih where sz: "im_size (if rotation \<noteq> 0 then rotate_image img rotation else img) = (iw, ih)"
    by (cases "im_size (if rotation \<noteq> 0 then rotate_image img rotation else img)") auto
  show ?thesis
  proof (cases "mode img \<notin> {''RGB'', ''RGBA''}")
    case True
    then show ?thesis by (simp add: image_def io_raise_def)
  next
    case m: False
    show ?thesis
    proof (cases "rotation \<notin> {0, 90, 180, 270}")
      case True
      then show ?thesis using m by (simp add: image_def io_raise_def)
    next
      case r: False
      then have "iw \<noteq> width d \<or> ih \<noteq> height d" using assms m sz by auto
      then show ?thesis using m r sz
        by (auto simp add: image_def io_raise_def Let_def)
    qed
  qed
qed

lemma image_accepted:
  assumes m: "mode img \<in> {''RGB'', ''RGBA''}" and r: "rotation \<in> {0, 90, 180, 270}"
    and sz: "im_size (if rotation \<noteq> 0 then rotate_image img rotation else img) = (width d, height d)"
    and e: "fst (image d img rotation s) = Inl e"
  shows "\<not> validation_error e"
proof -
  let ?img = "if rotation \<noteq> 0 then rotate_image img rotation else img"
  let ?loop = "\<lambda>pixels. for_loop (py_range (width d))
     (\<lambda>x. for_loop (py_range (height d)) (\<lambda>y. put_pixel d ?img x y)) pixels"
  have im: "image d img rotation =
     io_bind (io_lift (bytearray (width d * height d * 2))) (\<lambda>pixels.
     io_bind (io_lift (?loop pixels)) (\<lambda>pixels.
     io_bind (block d 0 0 (width d - 1) (height d - 1) (Some pixels)) (\<lambda>_. io_return ())))"
    using m r sz by (auto simp add: image_def Let_def)
  show ?thesis
  proof (cases "bytearray (width d * height d * 2)")
    case (Inl e')
    then show ?thesis using e
      by (auto simp add: im io_bind_def io_lift_def bytearray_def split: if_splits)
  next
    case buf: (Inr buf)
    show ?thesis
    proof (cases "?loop buf")
      case (Inl e')
      have "\<not> validation_error e'"
        using Inl
        by (rule for_loop_error) (erule for_loop_error, erule put_pixel_error)
      then show ?thesis using e buf Inl by (simp add: im io_bind_def io_lift_def)
    next
      case (Inr pixels)
      have "fst (block d 0 0 (width d - 1) (height d - 1) (Some pixels) s) = Inl e"
        using e buf Inr
        by (simp add: im io_bind_def io_lift_def io_return_def split: prod.splits sum.splits)
      then show ?thesis using block_write_error by fastforce
    qed
  qed
qed

text \<open>
  C7.  \<open>image\<close> raises one of its three validation errors exactly when the mode is
  neither \<^verbatim>\<open>RGB\<close> nor \<^verbatim>\<open>RGBA\<close>, or the rotation is not one of 0, 90, 180, 270, or the
  size of the image after the rotation differs from the size of the panel; and when it
  does, the bus is as it was before the call: nothing has been written.
\<close>

theorem image_validates_before_bus_io:
  "(case fst (image d img rotation s) of Inl e \<Rightarrow> validation_error e | Inr u \<Rightarrow> False) =
     (mode img \<notin> {''RGB'', ''RGBA''} \<or> rotation \<notin> {0, 90, 180, 270} \<or>
      im_size (if rotation \<noteq> 0 then rotate_image img rotation else img) \<noteq> (width d, height d)) \<and>
   ((case fst (image d img rotation s) of Inl e \<Rightarrow> validation_error e | Inr u \<Rightarrow> False) \<longrightarrow>
      snd (image d img rotation s) = s)"
proof (cases "mode img \<notin> {''RGB'', ''RGBA''} \<or> rotation \<notin> {0, 90, 180, 270} \<or>
      im_size (if rotation \<noteq> 0 then rotate_image img rotation else img) \<noteq> (width d, height d)")
  case True
  from image_rejected [OF True, of s] obtain e
    where "image d img rotation s = (Inl e, s)" "validation_error e" by blast
  then show ?thesis using True by simp
next
  case False
  then have "\<not> (case fst (image d img rotation s) of Inl e \<Rightarrow> validation_error e | Inr u \<Rightarrow> False)"
    using image_accepted [of img rotation d s] by (auto split: sum.splits)
  then show ?thesis using False by simp
qed

theorem image_validates_before_bus_io_witness:
  "(45 :: int) \<notin> {0, 90, 180, 270} \<and>
   (case fst (image panel2 rgb_image 45 red_bus) of Inl e \<Rightarrow> validation_error e | Inr u \<Rightarrow> False) \<and>
   snd (image panel2 rgb_image 45 red_bus) = red_bus \<and>
   \<not> (mode rgb_image \<notin> {''RGB'', ''RGBA''} \<or> (90 :: int) \<notin> {0, 90, 180, 270} \<or>
      im_size (if (90 :: int) \<noteq> 0 then rotate_image rgb_image 90 else rgb_image) \<noteq>
        (width panel2, height panel2)) \<and>
   \<not> (case fst (image panel2 rgb_image 90 red_bus) of Inl e \<Rightarrow> validation_error e | Inr u \<Rightarrow> False)"
proof -
  have bad: "(45 :: int) \<notin> {0, 90, 180, 270}" by simp
  have good: "\<not> (mode rgb_image \<notin> {''RGB'', ''RGBA''} \<or> (90 :: int) \<notin> {0, 90, 180, 270} \<or>
      im_size (if (90 :: int) \<noteq> 0 then rotate_image rgb_image 90 else rgb_image) \<noteq>
        (width panel2, height panel2))"
    by (simp add: rgb_image_def rotate_image_def panel2_def DisplaySPI_def Display_def)
  show ?thesis
    using bad good image_validates_before_bus_io [of panel2 rgb_image 45 red_bus]
      image_validates_before_bus_io [of panel2 rgb_image 90 red_bus]
    by simp
qed

section \<open>Images: the pixel buffer\<close>

lemma for_loop_map: "for_loop (map f xs) body s = for_loop xs (\<lambda>x. body (f x)) s"
  by (induction xs arbitrary: s) (simp_all split: sum.splits)

lemma for_loop_append:
  "for_loop (xs @ ys) body s =
     (case for_loop xs body s of Inl e \<Rightarrow> Inl e | Inr s' \<Rightarrow> for_loop ys body s')"
  by (induction xs arbitrary: s) (simp_all split: sum.splits)

lemma for_loop_nested:
  "for_loop xs (\<lambda>x. for_loop ys (body x)) s = for_loop (List.product xs ys) (\<lambda>(x, y). body x y) s"
  by (induction xs arbitrary: s) (simp_all add: for_loop_append for_loop_map split: sum.splits)

lemma for_loop_invariant:
  assumes "I S s"
    and "\<And>S x s. I S s \<Longrightarrow> x \<in> set xs \<Longrightarrow> \<exists>s'. body x s = Inr s' \<and> I (insert x S) s'"
  shows "\<exists>s'. for_loop xs body s = Inr s' \<and> I (S \<union> set xs) s'"
  using assms
proof (induction xs arbitrary: S s)
  case Nil
  then show ?case by simp
next
  case (Cons x xs)
  from Cons.prems(2) [OF Cons.prems(1), of x] obtain s1
    where s1: "body x s = Inr s1" "I (insert x S) s1" by auto
  have "\<exists>s'. for_loop xs body s1 = Inr s' \<and> I (insert x S \<union> set xs) s'"
    by (rule Cons.IH [OF s1(2)]) (use Cons.prems(2) in auto)
  then show ?case using s1(1) by simp
qed

lemma cell_index_inj:
  fixes W :: int
  assumes "0 \<le> x" "x < W" "0 \<le> x'" "x' < W" and eq: "y * W + x = y' * W + x'"
  shows "x = x' \<and> y = y'"
proof -
  have "(y * W + x) mod W = (y' * W + x') mod W" using eq by simp
  then have x: "x = x'" using assms(1-4) by simp
  then have "y * W = y' * W" using eq by simp
  then show ?thesis using x assms(1,2) by simp
qed

lemma cell_index_bound:
  fixes W :: int
  assumes "0 \<le> x" "x < W" "0 \<le> y" "y < H"
  shows "0 \<le> y * W + x" "2 * (y * W + x) + 1 < W * H * 2"
proof -
  show "0 \<le> y * W + x" using assms by simp
  have "y * W \<le> (H - 1) * W" using assms by (intro mult_right_mono) simp_all
  then have "y * W + x < H * W" using assms(2) by (simp add: algebra_simps)
  then show "2 * (y * W + x) + 1 < W * H * 2" by (simp add: algebra_simps)
qed

lemma color565_seq_fits:
  assumes "0 \<le> b" "b < 2 ^ 19"
  shows "\<exists>pix. color565 (PySeq [r, g, b]) 0 0 = Inr pix \<and> 0 \<le> pix \<and> pix < 2 ^ 16"
  using or_blue_fits [OF red_green_bits, of r g b] assms by simp

lemma pixel_bytes_in_range:
  assumes "0 \<le> (pix::int)" "pix < 2 ^ 16"
  shows "0 \<le> drop_bit 8 pix \<and> drop_bit 8 pix < 256" "0 \<le> pix AND 0xFF \<and> pix AND 0xFF < 256"
proof -
  show "0 \<le> drop_bit 8 pix \<and> drop_bit 8 pix < 256"
    using assms unfolding drop_bit_eq_div by (simp, arith)
  have "pix AND 0xFF \<le> 0xFF" by (rule AND_upper2) simp
  then show "0 \<le> pix AND 0xFF \<and> pix AND 0xFF < 256" using assms by simp
qed

lemma put_pixel_ok:
  assumes sz: "im_size img = (width d, height d)"
    and rng: "0 \<le> x" "x < width d" "0 \<le> y" "y < height d"
    and len: "int (length buf) = width d * height d * 2"
    and pix: "color565 (PySeq (bands img (x, y))) 0 0 = Inr pix" "0 \<le> pix" "pix < 2 ^ 16"
  shows "put_pixel d img x y buf =
    Inr (buf[nat (2 * (y * width d + x)) := word_of_int (drop_bit 8 pix),
             nat (2 * (y * width d + x) + 1) := word_of_int (pix AND 0xFF)])"
proof -
  note b = cell_index_bound [OF rng]
  note v = pixel_bytes_in_range [OF pix(2,3)]
  have g: "getpixel img (x, y) = Inr (PySeq (bands img (x, y)))"
    using sz rng by (simp add: getpixel_def)
  have s1: "bytearray_set buf (2 * (y * width d + x)) (drop_bit 8 pix) =
      Inr (buf[nat (2 * (y * width d + x)) := word_of_int (drop_bit 8 pix)])"
    using b v(1) len by (simp add: bytearray_set_def Let_def)
  have s2: "bytearray_set buf' (2 * (y * width d + x) + 1) (pix AND 0xFF) =
      Inr (buf'[nat (2 * (y * width d + x) + 1) := word_of_int (pix AND 0xFF)])"
    if "length buf' = length buf" for buf'
    using b v(2) len that by (simp add: bytearray_set_def Let_def)
  show ?thesis
    unfolding put_pixel_def g pix(1) s1 sum.case by (rule s2) simp
qed

lemma set_py_range: "set (py_range n) = {i. 0 \<le> i \<and> i < n}"
proof -
  have "i \<in> int ` {0..<nat n} \<longleftrightarrow> 0 \<le> i \<and> i < n" for i
  proof
    assume "i \<in> int ` {0..<nat n}"
    then show "0 \<le> i \<and> i < n" by auto
  next
    assume "0 \<le> i \<and> i < n"
    then have "nat i \<in> {0..<nat n}" "i = int (nat i)" by auto
    then show "i \<in> int ` {0..<nat n}" by (rule_tac image_eqI) 
  qed
  then show ?thesis by (auto simp: py_range_def)
qed

lemma update_same_cell:
  assumes "0 \<le> (c::int)" "2 * c + 1 < int (length buf)"
  shows "buf[nat (2 * c) := a, nat (2 * c + 1) := b] ! nat (2 * c) = a"
    and "buf[nat (2 * c) := a, nat (2 * c + 1) := b] ! nat (2 * c + 1) = b"
proof -
  have "nat (2 * c) \<noteq> nat (2 * c + 1)" "nat (2 * c) < length buf" "nat (2 * c + 1) < length buf"
    using assms by auto
  then show "buf[nat (2 * c) := a, nat (2 * c + 1) := b] ! nat (2 * c) = a"
    and "buf[nat (2 * c) := a, nat (2 * c + 1) := b] ! nat (2 * c + 1) = b"
    by simp_all
qed

lemma update_other_cell:
  assumes "0 \<le> (c::int)" "0 \<le> c'" "c \<noteq> c'"
  shows "buf[nat (2 * c) := a, nat (2 * c + 1) := b] ! nat (2 * c') = buf ! nat (2 * c')"
    and "buf[nat (2 * c) := a, nat (2 * c + 1) := b] ! nat (2 * c' + 1) = buf ! nat (2 * c' + 1)"
proof -
  have "nat (2 * c) \<noteq> nat (2 * c')" "nat (2 * c + 1) \<noteq> nat (2 * c')"
    "nat (2 * c) \<noteq> nat (2 * c' + 1)" "nat (2 * c + 1) \<noteq> nat (2 * c' + 1)"
    using assms by auto
  then show "buf[nat (2 * c) := a, nat (2 * c + 1) := b] ! nat (2 * c') = buf ! nat (2 * c')"
    and "buf[nat (2 * c) := a, nat (2 * c + 1) := b] ! nat (2 * c' + 1) = buf ! nat (2 * c' + 1)"
    by simp_all
qed

lemma put_pixel_keeps_stored:
  assumes sz: "im_size img = (width d, height d)"
    and rng: "0 \<le> x" "x < width d" "0 \<le> y" "y < height d"
    and len: "int (length buf) = width d * height d * 2"
    and pix: "color565 (PySeq (bands img (x, y))) 0 0 = Inr pix" "0 \<le> pix" "pix < 2 ^ 16"
  shows "\<exists>buf'. put_pixel d img x y buf = Inr buf' \<and> length buf' = length buf \<and>
     stored_at d img buf' x y \<and>
     (\<forall>x' y'. 0 \<le> x' \<and> x' < width d \<and> 0 \<le> y' \<and> y' < height d \<and> stored_at d img buf x' y' \<longrightarrow>
        stored_at d img buf' x' y')"
proof -
  let ?c = "y * width d + x"
  let ?buf' = "buf[nat (2 * ?c) := word_of_int (drop_bit 8 pix),
                   nat (2 * ?c + 1) := word_of_int (pix AND 0xFF)]"
  note b = cell_index_bound [OF rng]
  have in_buf: "2 * ?c + 1 < int (length buf)" using b(2) len by simp
  have new: "stored_at d img ?buf' x y"
    unfolding stored_at_def pix(1) sum.case
    using update_same_cell [OF b(1) in_buf] by simp
  have old: "stored_at d img ?buf' x' y'"
    if r: "0 \<le> x'" "x' < width d" "0 \<le> y'" "y' < height d" and st: "stored_at d img buf x' y'"
    for x' y'
  proof (cases "y' * width d + x' = ?c")
    case True
    then have "x' = x \<and> y' = y" using cell_index_inj [OF r(1,2) rng(1,2)] by simp
    then show ?thesis using new by simp
  next
    case False
    have c': "0 \<le> y' * width d + x'" using r by simp
    from False have ne: "?c \<noteq> y' * width d + x'" by simp
    show ?thesis
      using st unfolding stored_at_def
      by (simp only: update_other_cell [OF b(1) c' ne])
  qed
  show ?thesis
    using put_pixel_ok [OF sz rng len pix] new old by simp
qed

lemma image_loop_stores_all:
  assumes sz: "im_size img = (width d, height d)"
    and len: "int (length buf) = width d * height d * 2"
    and rgb: "\<And>x y. 0 \<le> x \<Longrightarrow> x < width d \<Longrightarrow> 0 \<le> y \<Longrightarrow> y < height d \<Longrightarrow>
       \<exists>r g b. bands img (x, y) = [r, g, b] \<and> 0 \<le> b \<and> b < 2 ^ 19"
  shows "\<exists>buf'. for_loop (py_range (width d))
       (\<lambda>x. for_loop (py_range (height d)) (\<lambda>y. put_pixel d img x y)) buf = Inr buf' \<and>
     length buf' = length buf \<and>
     (\<forall>x y. 0 \<le> x \<and> x < width d \<and> 0 \<le> y \<and> y < height d \<longrightarrow> stored_at d img buf' x y)"
proof -
  let ?cells = "List.product (py_range (width d)) (py_range (height d))"
  define I where "I S b \<longleftrightarrow> length b = length buf \<and>
    (\<forall>(x, y) \<in> S. 0 \<le> x \<and> x < width d \<and> 0 \<le> y \<and> y < height d \<and> stored_at d img b x y)"
    for S :: "(int \<times> int) set" and b :: "byte list"
  have init: "I {} buf" by (simp add: I_def)
  have step: "\<exists>b'. (case c of (x, y) \<Rightarrow> put_pixel d img x y) b = Inr b' \<and> I (insert c S) b'"
    if inv: "I S b" and c: "c \<in> set ?cells" for S c b
  proof -
    obtain x y where xy: "c = (x, y)" by (cases c)
    have rng: "0 \<le> x" "x < width d" "0 \<le> y" "y < height d"
      using c xy by (simp_all add: set_py_range)
    obtain r g bl where bands: "bands img (x, y) = [r, g, bl]" "0 \<le> bl" "bl < 2 ^ 19"
      using rgb [OF rng] by blast
    obtain pix where pix: "color565 (PySeq (bands img (x, y))) 0 0 = Inr pix" "0 \<le> pix" "pix < 2 ^ 16"
      using color565_seq_fits [OF bands(2,3), of r g] bands(1) by auto
    have len_b: "int (length b) = width d * height d * 2" using inv len by (simp add: I_def)
    obtain b' where b': "put_pixel d img x y b = Inr b'" "length b' = length b"
      "stored_at d img b' x y"
      "\<And>x' y'. 0 \<le> x' \<and> x' < width d \<and> 0 \<le> y' \<and> y' < height d \<and> stored_at d img b x' y' \<Longrightarrow>
         stored_at d img b' x' y'"
      using put_pixel_keeps_stored [OF sz rng len_b pix] by blast
    have "I (insert c S) b'"
      unfolding I_def xy using inv b'(2,3) rng b'(4) by (auto simp: I_def)
    then show ?thesis using b'(1) xy by simp
  qed
  from for_loop_invariant [of I "{}" buf ?cells "\<lambda>(x, y). put_pixel d img x y", OF init step]
  obtain buf' where res: "for_loop ?cells (\<lambda>(x, y). put_pixel d img x y) buf = Inr buf'"
    "I (set ?cells) buf'" by auto
  have "\<forall>x y. 0 \<le> x \<and> x < width d \<and> 0 \<le> y \<and> y < height d \<longrightarrow> stored_at d img buf' x y"
    using res(2) by (auto simp: I_def set_py_range)
  then show ?thesis using res by (simp add: for_loop_nested I_def)
qed

text \<open>
  For a pixel source with three bands per pixel (mode \<^verbatim>\<open>RGB\<close>), a valid rotation and the
  size of the panel after it, \<open>image\<close> succeeds: every pixel of the rotated image is
  stored as its 565 value, big-endian, at the byte offset \<open>2 * (y * width + x)\<close>, and
  the buffer of \<open>width * height * 2\<close> bytes goes out in one block write over the whole
  panel.
\<close>

lemma image_rgb_row_major:
  assumes m: "mode img \<in> {''RGB'', ''RGBA''}" and r: "rotation \<in> {0, 90, 180, 270}"
    and img': "img' = (if rotation \<noteq> 0 then rotate_image img rotation else img)"
    and sz: "im_size img' = (width d, height d)"
    and dims: "0 < width d" "0 < height d"
    and cx: "encode_pos d (0 + X_START d) (width d - 1 + X_START d) = Inr cx"
    and cy: "encode_pos d (0 + Y_START d) (height d - 1 + Y_START d) = Inr cy"
    and rgb: "\<And>x y. 0 \<le> x \<Longrightarrow> x < width d \<Longrightarrow> 0 \<le> y \<Longrightarrow> y < height d \<Longrightarrow>
       \<exists>r g b. bands img' (x, y) = [r, g, b] \<and> 0 \<le> b \<and> b < 2 ^ 19"
  shows "\<exists>buf. image d img rotation s =
      (Inr (), s\<lparr>calls := calls s @
         [Write (COLUMN_SET d) (Some cx), Write (PAGE_SET d) (Some cy),
          Write (RAM_WRITE d) (Some buf)]\<rparr>) \<and>
     int (length buf) = width d * height d * 2 \<and>
     (\<forall>x y. 0 \<le> x \<and> x < width d \<and> 0 \<le> y \<and> y < height d \<longrightarrow> stored_at d img' buf x y)"
proof -
  let ?loop = "\<lambda>pixels. for_loop (py_range (width d))
     (\<lambda>x. for_loop (py_range (height d)) (\<lambda>y. put_pixel d img' x y)) pixels"
  have im: "image d img rotation =
     io_bind (io_lift (bytearray (width d * height d * 2))) (\<lambda>pixels.
     io_bind (io_lift (?loop pixels)) (\<lambda>pixels.
     io_bind (block d 0 0 (width d - 1) (height d - 1) (Some pixels)) (\<lambda>_. io_return ())))"
    using m r sz unfolding img' by (auto simp add: image_def Let_def)
  let ?zeros = "replicate (nat (width d * height d * 2)) (0 :: byte)"
  have n: "0 \<le> width d * height d * 2" using dims by simp
  have alloc: "bytearray (width d * height d * 2) = Inr ?zeros"
    using n by (simp add: bytearray_def)
  have len: "int (length ?zeros) = width d * height d * 2" using n by simp
  obtain buf where buf: "?loop ?zeros = Inr buf" "length buf = length ?zeros"
    "\<forall>x y. 0 \<le> x \<and> x < width d \<and> 0 \<le> y \<and> y < height d \<longrightarrow> stored_at d img' buf x y"
    using image_loop_stores_all [OF sz len rgb] by blast
  have "image d img rotation s =
      (Inr (), s\<lparr>calls := calls s @
         [Write (COLUMN_SET d) (Some cx), Write (PAGE_SET d) (Some cy),
          Write (RAM_WRITE d) (Some buf)]\<rparr>)"
    unfolding im
    by (simp add: io_bind_def io_lift_def alloc buf(1) block_write [OF cx cy] io_return_def)
  moreover have "int (length buf) = width d * height d * 2" using buf(2) len by simp
  ultimately show ?thesis using buf(3) by blast
qed

lemma image_rgb_example:
  "fst (image panel2 rgb_image 0 red_bus) = Inr () \<and>
   calls (snd (image panel2 rgb_image 0 red_bus)) =
     [Write (Some 0x2A) (Some [0, 0, 0, 1]), Write (Some 0x2B) (Some [0, 0, 0, 1]),
      Write (Some 0x2C) (Some [248, 0, 7, 224, 0, 31, 255, 255])] \<and>
   calls (snd (image panel2 rgb_image 90 red_bus)) =
     [Write (Some 0x2A) (Some [0, 0, 0, 1]), Write (Some 0x2B) (Some [0, 0, 0, 1]),
      Write (Some 0x2C) (Some [7, 224, 255, 255, 248, 0, 0, 31])]"
  by code_simp

text \<open>
  C8.  The claim fails in the code for mode \<^verbatim>\<open>RGBA\<close>: the mode passes the check of
  \<open>image\<close>, the size is the size of the panel, but \<^verbatim>\<open>getpixel\<close> returns four bands,
  the unpacking into three names in \<open>color565\<close> raises \<^verbatim>\<open>ValueError\<close> at the first pixel
  and nothing is written to the panel.
\<close>

theorem image_rgba_raises:
  "mode rgba_image \<in> {''RGB'', ''RGBA''} \<and>
   im_size rgba_image = (width panel2, height panel2) \<and>
   fst (image panel2 rgba_image 0 red_bus) = Inl (ValueError UnpackError) \<and>
   calls (snd (image panel2 rgba_image 0 red_bus)) = []"
  by code_simp

text \<open>So the call does not succeed, against the claim.\<close>

theorem image_rgba_raises_witness:
  "fst (image panel2 rgba_image 0 red_bus) \<noteq> Inr ()"
  using image_rgba_raises by simp

end
